theory Spec2Isabelle
  imports Main
begin

section \<open>JavaScript values, the object heap and call outcomes\<close>

text \<open>
  The instrumentation of \<^verbatim>\<open>lib/index.js\<close> is embedded over a small model of the
  JavaScript it runs in. Data values are primitives or references to heap objects. A
  property of an object is a data field or an accessor, whose getter runs when the
  property is read and may throw. A call either returns a value or throws one.
\<close>

type_synonym addr = nat

datatype jsval = JUndefined | JNull | JBool bool | JNum int | JStr string | JObj addr

datatype outcome = Return jsval | Throw jsval

text \<open>A property: a data field holding a value, or an accessor, named by the identifier
  of its getter.\<close>

datatype property = Field jsval | Accessor nat

type_synonym heap = "(string \<rightharpoonup> property) list"

text \<open>\<^verbatim>\<open>params[0]\<close>: the first element of the rest-parameter array, \<^verbatim>\<open>undefined\<close>
  when the call had no argument.\<close>

definition first_param :: "jsval list \<Rightarrow> jsval" where
  "first_param params = (case params of [] \<Rightarrow> JUndefined | x # _ \<Rightarrow> x)"

section \<open>What the module requires\<close>

text \<open>\<^verbatim>\<open>SpanKind\<close> and \<^verbatim>\<open>SpanStatusCode\<close> of \<^verbatim>\<open>@opentelemetry/api\<close>.\<close>

datatype SpanKind = INTERNAL | SERVER | CLIENT | PRODUCER | CONSUMER

datatype SpanStatusCode = UNSET | OK | ERROR

text \<open>The argument of \<^verbatim>\<open>span.setStatus\<close>: \<open>message = None\<close> is an object literal without
  a \<^verbatim>\<open>message\<close> key, \<open>Some JUndefined\<close> one whose key holds \<^verbatim>\<open>undefined\<close>.\<close>

record SpanStatus =
  code :: SpanStatusCode
  message :: "jsval option"

text \<open>The options of \<^verbatim>\<open>tracer.startSpan\<close>. The attributes literal has computed keys, so
  it is a map: a later key overrides an equal earlier one.\<close>

record SpanOptions =
  kind :: SpanKind
  attributes :: "string \<rightharpoonup> jsval"

text \<open>\<^verbatim>\<open>package.json\<close> is not among the sources; its two fields are parameters.\<close>

record package_json =
  pkg_name :: string
  pkg_version :: string

text \<open>
  Modelled from the spec: the base class \<^verbatim>\<open>InstrumentationBase\<close> belongs to
  \<^verbatim>\<open>@opentelemetry/instrumentation\<close>. It keeps the name and version it was constructed
  with, and its tracer is obtained under that name and version ("the standard metadata
  identifying this instrumentation's name/version").
\<close>

record instrumentation =
  instrumentationName :: string
  instrumentationVersion :: string
  config :: jsval

text \<open>Modelled from the spec: a tracer is known by the name and version it was obtained
  under, which its spans carry "for downstream attribution".\<close>

record Tracer =
  scope_name :: string
  scope_version :: string

text \<open>Modelled from the spec: the constructor of the base class, called as
  \<^verbatim>\<open>super(pkg.name, pkg.version, config)\<close>.\<close>

definition InstrumentationBase :: "string \<Rightarrow> string \<Rightarrow> jsval \<Rightarrow> instrumentation" where
  "InstrumentationBase nm ver cfg =
     \<lparr>instrumentationName = nm, instrumentationVersion = ver, config = cfg\<rparr>"

text \<open>Modelled from the spec: the base class's \<^verbatim>\<open>tracer\<close> accessor.\<close>

definition tracer :: "instrumentation \<Rightarrow> Tracer" where
  "tracer instr =
     \<lparr>scope_name = instrumentationName instr, scope_version = instrumentationVersion instr\<rparr>"

section \<open>Functions, module objects and the state\<close>

text \<open>
  A function value is a native method of \<^verbatim>\<open>node:sqlite\<close> (its \<^verbatim>\<open>name\<close> property and
  an identifier of its implementation) or one of the three closures that \<^verbatim>\<open>init\<close>
  creates, each capturing \<^verbatim>\<open>instr\<close> and \<^verbatim>\<open>original\<close>.
\<close>

datatype fn =
    Native string nat
  | Exec instrumentation fn
  | Prepare instrumentation fn
  | StatementExecution instrumentation fn

text \<open>\<^verbatim>\<open>f.name\<close>: the closures are declared as \<^verbatim>\<open>function exec\<close>,
  \<^verbatim>\<open>function prepare\<close> and \<^verbatim>\<open>function statementExecution\<close>.\<close>

fun fn_name :: "fn \<Rightarrow> string" where
  "fn_name (Native nm i) = nm"
| "fn_name (Exec instr original) = ''exec''"
| "fn_name (Prepare instr original) = ''prepare''"
| "fn_name (StatementExecution instr original) = ''statementExecution''"

text \<open>A property of a module-level object (the exports object, a class, a prototype):
  a method, a reference to another module-level object, or plain data. The state maps
  an object and a property name to the property's value.\<close>

datatype member = Method fn | Ref addr | Data jsval

text \<open>What the tracing SDK and the engine are seen to do, in order: spans started (a span
  is identified by the position of its start in the trace), the calls made on a span, and
  the native methods invoked with their receiver and arguments.\<close>

datatype event =
    StartSpan nat Tracer string SpanOptions
  | SetStatus nat SpanStatus
  | End nat
  | NativeCall nat jsval "jsval list"

record 'd state =
  objects :: heap
  db :: 'd
  trace :: "event list"
  modules :: "addr \<times> string \<rightharpoonup> member"
  patches :: "addr \<times> string \<rightharpoonup> fn"
  enabled :: bool
  loaded :: "addr option"

text \<open>The environment of the module: the constants it requires from
  \<^verbatim>\<open>@opentelemetry/semantic-conventions\<close> and \<^verbatim>\<open>package.json\<close> (none of them among the
  sources, so they are parameters), and the behaviour of the engine's native methods
  and of the getters of accessor properties, which are given their receiver and work on
  the object heap and the engine's own state.\<close>

record 'd env =
  pkg :: package_json
  ATTR_DB_QUERY_TEXT :: string
  ATTR_DB_SYSTEM :: string
  DB_SYSTEM_VALUE_SQLITE :: string
  natives :: "nat \<Rightarrow> jsval \<Rightarrow> jsval list \<Rightarrow> heap \<times> 'd \<Rightarrow> outcome \<times> heap \<times> 'd"
  getters :: "nat \<Rightarrow> jsval \<Rightarrow> heap \<times> 'd \<Rightarrow> outcome \<times> heap \<times> 'd"

definition STMT_METHODS :: "string list" where
  "STMT_METHODS = [''all'', ''get'', ''run'']"

section \<open>The tracing collaborator\<close>

text \<open>
  Modelled from the spec: the tracer and its spans belong to the tracing SDK ("a
  span-start operation accepting (name, {kind, attributes}), a span object exposing
  setStatus({code, message?}) and end()"). Each call is recorded in the trace with its
  arguments; none of them throws.
\<close>

definition startSpan :: "Tracer \<Rightarrow> string \<Rightarrow> SpanOptions \<Rightarrow> 'd state \<Rightarrow> nat \<times> 'd state" where
  "startSpan tr nm opts s =
     (length (trace s), s\<lparr>trace := trace s @ [StartSpan (length (trace s)) tr nm opts]\<rparr>)"

text \<open>Modelled from the spec: \<^verbatim>\<open>span.setStatus(status)\<close>.\<close>

definition setStatus :: "nat \<Rightarrow> SpanStatus \<Rightarrow> 'd state \<Rightarrow> 'd state" where
  "setStatus span st s = s\<lparr>trace := trace s @ [SetStatus span st]\<rparr>"

text \<open>Modelled from the spec: \<^verbatim>\<open>span.end()\<close>.\<close>

definition span_end :: "nat \<Rightarrow> 'd state \<Rightarrow> 'd state" where
  "span_end span s = s\<lparr>trace := trace s @ [End span]\<rparr>"

section \<open>Reading properties\<close>

text \<open>Reading property \<open>p\<close> of the object at address \<open>a\<close>: a data field yields its
  value, an accessor runs its getter on the object, which returns or throws and may
  change the heap and the engine; a missing property reads as \<^verbatim>\<open>undefined\<close>.\<close>

definition get_property :: "'d env \<Rightarrow> addr \<Rightarrow> string \<Rightarrow> 'd state \<Rightarrow> outcome \<times> 'd state" where
  "get_property env a p s =
     (if a < length (objects s)
      then (case (objects s ! a) p of
              None \<Rightarrow> (Return JUndefined, s)
            | Some (Field v) \<Rightarrow> (Return v, s)
            | Some (Accessor g) \<Rightarrow>
                (case getters env g (JObj a) (objects s, db s) of
                   (r, h, d) \<Rightarrow> (r, s\<lparr>objects := h, db := d\<rparr>)))
      else (Return JUndefined, s))"

section \<open>The span lifecycle helper\<close>

text \<open>\<^verbatim>\<open>err?.message\<close>: the optional chain short-circuits on \<^verbatim>\<open>null\<close> and
  \<^verbatim>\<open>undefined\<close>; a primitive has no \<^verbatim>\<open>message\<close>; an object's property is read,
  which throws when its getter throws.\<close>

fun optional_message :: "'d env \<Rightarrow> jsval \<Rightarrow> 'd state \<Rightarrow> outcome \<times> 'd state" where
  "optional_message env JUndefined s = (Return JUndefined, s)"
| "optional_message env JNull s = (Return JUndefined, s)"
| "optional_message env (JObj a) s = get_property env a ''message'' s"
| "optional_message env v s = (Return JUndefined, s)"

text \<open>
  \<^verbatim>\<open>genericWrap(original, self, params, span)\<close>. The callable \<open>original\<close> is the
  function that \<^verbatim>\<open>original.apply\<close> runs. The \<^verbatim>\<open>try\<close> branch sets OK and returns the
  result. The \<^verbatim>\<open>catch\<close> branch builds the status from \<^verbatim>\<open>err?.message\<close>, sets it
  and throws \<open>err\<close> again; when reading the message throws, that exception leaves
  the \<^verbatim>\<open>catch\<close> block before \<^verbatim>\<open>setStatus\<close> is called. The \<^verbatim>\<open>finally\<close> block
  ends the span on every path. The environment is that of the getters.
\<close>

definition genericWrap ::
  "'d env \<Rightarrow> (jsval \<Rightarrow> jsval list \<Rightarrow> 'd state \<Rightarrow> outcome \<times> 'd state) \<Rightarrow> jsval \<Rightarrow> jsval list
     \<Rightarrow> nat \<Rightarrow> 'd state \<Rightarrow> outcome \<times> 'd state" where
  "genericWrap env original self params span s =
     (case original self params s of
        (Return result, s1) \<Rightarrow>
          (let s2 = setStatus span \<lparr>code = OK, message = None\<rparr> s1;
               s3 = span_end span s2
           in (Return result, s3))
      | (Throw err, s1) \<Rightarrow>
          (case optional_message env err s1 of
             (Return msg, s2) \<Rightarrow>
               (let s3 = setStatus span \<lparr>code = ERROR, message = Some msg\<rparr> s2;
                    s4 = span_end span s3
                in (Throw err, s4))
           | (Throw e, s2) \<Rightarrow> (Throw e, span_end span s2)))"

section \<open>The instrumentation\<close>

text \<open>The constructor: \<^verbatim>\<open>super(pkg.name, pkg.version, config)\<close>.\<close>

definition SqliteInstrumentation :: "'d env \<Rightarrow> jsval \<Rightarrow> instrumentation" where
  "SqliteInstrumentation env cfg =
     InstrumentationBase (pkg_name (pkg env)) (pkg_version (pkg env)) cfg"

text \<open>A native method runs on the heap and the engine's state; its invocation is
  recorded.\<close>

definition native_apply ::
  "'d env \<Rightarrow> nat \<Rightarrow> jsval \<Rightarrow> jsval list \<Rightarrow> 'd state \<Rightarrow> outcome \<times> 'd state" where
  "native_apply env i this params s =
     (case natives env i this params (objects s, db s) of
        (r, h, d) \<Rightarrow>
          (r, s\<lparr>objects := h, db := d, trace := trace s @ [NativeCall i this params]\<rparr>))"

text \<open>The engine's TypeError for a property read on \<^verbatim>\<open>null\<close> or \<^verbatim>\<open>undefined\<close>: a fresh
  error object is thrown.\<close>

definition throw_TypeError :: "string \<Rightarrow> 'd state \<Rightarrow> outcome \<times> 'd state" where
  "throw_TypeError msg s =
     (Throw (JObj (length (objects s))),
      s\<lparr>objects := objects s @
                    [[''name'' \<mapsto> Field (JStr ''TypeError''), ''message'' \<mapsto> Field (JStr msg)]]\<rparr>)"

text \<open>\<^verbatim>\<open>this.sourceSQL\<close>, a plain member access: it throws on \<^verbatim>\<open>null\<close> and
  \<^verbatim>\<open>undefined\<close>, and on an object it reads the property, which throws when its
  getter throws (as that of a finalized statement does).\<close>

fun this_sourceSQL :: "'d env \<Rightarrow> jsval \<Rightarrow> 'd state \<Rightarrow> outcome \<times> 'd state" where
  "this_sourceSQL env JUndefined s =
     throw_TypeError ''Cannot read properties of undefined (reading 'sourceSQL')'' s"
| "this_sourceSQL env JNull s =
     throw_TypeError ''Cannot read properties of null (reading 'sourceSQL')'' s"
| "this_sourceSQL env (JObj a) s = get_property env a ''sourceSQL'' s"
| "this_sourceSQL env v s = (Return JUndefined, s)"

text \<open>The three closures of \<^verbatim>\<open>init\<close>. Each takes the captured \<open>instr\<close> and
  \<open>original\<close> (its name and the function it applies), then the receiver and the
  arguments of the call. The statement closure reads \<^verbatim>\<open>this.sourceSQL\<close> while it
  builds the arguments of \<^verbatim>\<open>startSpan\<close>, outside any \<^verbatim>\<open>try\<close>: when the read throws,
  no span is started and \<open>original\<close> is not called.\<close>

definition exec ::
  "'d env \<Rightarrow> instrumentation \<Rightarrow> string \<Rightarrow> (jsval \<Rightarrow> jsval list \<Rightarrow> 'd state \<Rightarrow> outcome \<times> 'd state)
     \<Rightarrow> jsval \<Rightarrow> jsval list \<Rightarrow> 'd state \<Rightarrow> outcome \<times> 'd state" where
  "exec env instr original_name original this params s =
     (case startSpan (tracer instr) original_name
             \<lparr>kind = CLIENT,
              attributes = [ATTR_DB_SYSTEM env \<mapsto> JStr (DB_SYSTEM_VALUE_SQLITE env)]\<rparr> s of
        (span, s1) \<Rightarrow> genericWrap env original this params span s1)"

definition prepare ::
  "'d env \<Rightarrow> instrumentation \<Rightarrow> string \<Rightarrow> (jsval \<Rightarrow> jsval list \<Rightarrow> 'd state \<Rightarrow> outcome \<times> 'd state)
     \<Rightarrow> jsval \<Rightarrow> jsval list \<Rightarrow> 'd state \<Rightarrow> outcome \<times> 'd state" where
  "prepare env instr original_name original this params s =
     (case startSpan (tracer instr) original_name
             \<lparr>kind = CLIENT,
              attributes = [ATTR_DB_SYSTEM env \<mapsto> JStr (DB_SYSTEM_VALUE_SQLITE env),
                            ATTR_DB_QUERY_TEXT env \<mapsto> first_param params]\<rparr> s of
        (span, s1) \<Rightarrow> genericWrap env original this params span s1)"

definition statementExecution ::
  "'d env \<Rightarrow> instrumentation \<Rightarrow> string \<Rightarrow> (jsval \<Rightarrow> jsval list \<Rightarrow> 'd state \<Rightarrow> outcome \<times> 'd state)
     \<Rightarrow> jsval \<Rightarrow> jsval list \<Rightarrow> 'd state \<Rightarrow> outcome \<times> 'd state" where
  "statementExecution env instr original_name original this params s =
     (case this_sourceSQL env this s of
        (Throw e, s0) \<Rightarrow> (Throw e, s0)
      | (Return sourceSQL, s0) \<Rightarrow>
          (case startSpan (tracer instr) original_name
                  \<lparr>kind = CLIENT,
                   attributes = [ATTR_DB_SYSTEM env \<mapsto> JStr (DB_SYSTEM_VALUE_SQLITE env),
                                 ATTR_DB_QUERY_TEXT env \<mapsto> sourceSQL]\<rparr> s0 of
             (span, s1) \<Rightarrow> genericWrap env original this params span s1))"

text \<open>Calling a function value with a receiver and arguments.\<close>

primrec call_fn ::
  "'d env \<Rightarrow> fn \<Rightarrow> jsval \<Rightarrow> jsval list \<Rightarrow> 'd state \<Rightarrow> outcome \<times> 'd state" where
  "call_fn env (Native nm i) = native_apply env i"
| "call_fn env (Exec instr original) =
     exec env instr (fn_name original) (call_fn env original)"
| "call_fn env (Prepare instr original) =
     prepare env instr (fn_name original) (call_fn env original)"
| "call_fn env (StatementExecution instr original) =
     statementExecution env instr (fn_name original) (call_fn env original)"

section \<open>The method interceptor\<close>

datatype error = TypeError | DoubleWrap addr string | NotAFunction addr string

text \<open>
  Modelled from the spec: \<^verbatim>\<open>_wrap\<close>, \<^verbatim>\<open>_massWrap\<close>, \<^verbatim>\<open>_unwrap\<close> and
  \<^verbatim>\<open>_massUnwrap\<close> are inherited from \<^verbatim>\<open>InstrumentationBase\<close>, which is not among the
  sources. "\<^verbatim>\<open>wrap(target, methodName, factory)\<close> replaces \<^verbatim>\<open>target[methodName]\<close> with
  \<^verbatim>\<open>factory(originalMethod)\<close>, remembering the original for later restoration"; a method
  that is wrapped already is "an error condition to guard against". The patch record
  \<open>patches\<close> is the association "between (prototype, method name) and the original
  implementation". A target without a function of that name has nothing to wrap, which
  is reported as an error as well.
\<close>

definition wrap :: "addr \<Rightarrow> string \<Rightarrow> (fn \<Rightarrow> fn) \<Rightarrow> 'd state \<Rightarrow> error + 'd state" where
  "wrap target methodName factory s =
     (case patches s (target, methodName) of
        Some remembered \<Rightarrow> Inl (DoubleWrap target methodName)
      | None \<Rightarrow>
          (case modules s (target, methodName) of
             Some (Method originalMethod) \<Rightarrow>
               Inr (s\<lparr>modules := (modules s)((target, methodName) \<mapsto> Method (factory originalMethod)),
                      patches := (patches s)((target, methodName) \<mapsto> originalMethod)\<rparr>)
           | _ \<Rightarrow> Inl (NotAFunction target methodName)))"

text \<open>Modelled from the spec: "\<^verbatim>\<open>wrapMany(target, methodNames, factory)\<close> applies
  \<^verbatim>\<open>wrap\<close> to each name in the set"; the first error ends it.\<close>

fun massWrap :: "addr \<Rightarrow> string list \<Rightarrow> (fn \<Rightarrow> fn) \<Rightarrow> 'd state \<Rightarrow> error + 'd state" where
  "massWrap target [] factory s = Inr s"
| "massWrap target (methodName # methodNames) factory s =
     (case wrap target methodName factory s of
        Inl e \<Rightarrow> Inl e
      | Inr s' \<Rightarrow> massWrap target methodNames factory s')"

text \<open>
  Modelled from the spec: "\<^verbatim>\<open>unwrap(target, methodName)\<close> restores the remembered
  original if one exists; if the method was never wrapped, this is a no-op -- no error
  raised."
\<close>

definition unwrap :: "addr \<Rightarrow> string \<Rightarrow> 'd state \<Rightarrow> 'd state" where
  "unwrap target methodName s =
     (case patches s (target, methodName) of
        None \<Rightarrow> s
      | Some originalMethod \<Rightarrow>
          s\<lparr>modules := (modules s)((target, methodName) \<mapsto> Method originalMethod),
            patches := (patches s)((target, methodName) := None)\<rparr>)"

text \<open>Modelled from the spec: \<^verbatim>\<open>unwrapMany\<close> applies \<^verbatim>\<open>unwrap\<close> per name.\<close>

fun massUnwrap :: "addr \<Rightarrow> string list \<Rightarrow> 'd state \<Rightarrow> 'd state" where
  "massUnwrap target [] s = s"
| "massUnwrap target (methodName # methodNames) s =
     massUnwrap target methodNames (unwrap target methodName s)"

section \<open>The patch and unpatch callbacks of init\<close>

text \<open>\<^verbatim>\<open>C.prototype\<close> for a destructured export \<open>C\<close>: reading it throws a TypeError
  when the export is missing; a prototype that is no object cannot be a target.\<close>

definition prototype_of :: "'d state \<Rightarrow> member option \<Rightarrow> error + addr" where
  "prototype_of s cls =
     (case cls of
        Some (Ref c) \<Rightarrow>
          (case modules s (c, ''prototype'') of Some (Ref p) \<Rightarrow> Inr p | _ \<Rightarrow> Inl TypeError)
      | _ \<Rightarrow> Inl TypeError)"

text \<open>The first callback: the two classes are destructured from the exports, \<^verbatim>\<open>exec\<close>
  and \<^verbatim>\<open>prepare\<close> are wrapped on the connection prototype and the statement methods on
  the statement prototype, and the exports are returned.\<close>

definition patch :: "instrumentation \<Rightarrow> addr \<Rightarrow> 'd state \<Rightarrow> error + addr \<times> 'd state" where
  "patch instr moduleExports s =
     (let DatabaseSync = modules s (moduleExports, ''DatabaseSync'');
          StatementSync = modules s (moduleExports, ''StatementSync'')
      in case prototype_of s DatabaseSync of Inl e \<Rightarrow> Inl e | Inr p1 \<Rightarrow>
         (case wrap p1 ''exec'' (\<lambda>original. Exec instr original) s of Inl e \<Rightarrow> Inl e | Inr s1 \<Rightarrow>
         (case prototype_of s1 DatabaseSync of Inl e \<Rightarrow> Inl e | Inr p2 \<Rightarrow>
         (case wrap p2 ''prepare'' (\<lambda>original. Prepare instr original) s1 of Inl e \<Rightarrow> Inl e | Inr s2 \<Rightarrow>
         (case prototype_of s2 StatementSync of Inl e \<Rightarrow> Inl e | Inr p3 \<Rightarrow>
         (case massWrap p3 STMT_METHODS (\<lambda>original. StatementExecution instr original) s2 of
            Inl e \<Rightarrow> Inl e
          | Inr s3 \<Rightarrow> Inr (moduleExports, s3)))))))"

text \<open>The second callback undoes the three in the same order.\<close>

definition unpatch :: "addr \<Rightarrow> 'd state \<Rightarrow> error + 'd state" where
  "unpatch moduleExports s =
     (let DatabaseSync = modules s (moduleExports, ''DatabaseSync'');
          StatementSync = modules s (moduleExports, ''StatementSync'')
      in case prototype_of s DatabaseSync of Inl e \<Rightarrow> Inl e | Inr p1 \<Rightarrow>
         (let s1 = unwrap p1 ''exec'' s
          in case prototype_of s1 DatabaseSync of Inl e \<Rightarrow> Inl e | Inr p2 \<Rightarrow>
             (let s2 = unwrap p2 ''prepare'' s1
              in case prototype_of s2 StatementSync of Inl e \<Rightarrow> Inl e | Inr p3 \<Rightarrow>
                 Inr (massUnwrap p3 STMT_METHODS s2))))"

section \<open>The instrumentation controller\<close>

text \<open>
  Modelled from the spec: \<^verbatim>\<open>enable\<close>, \<^verbatim>\<open>disable\<close> and the module-load hook are the
  base class's. "State machine with two reachable states: disabled (initial) and enabled";
  "if already enabled, re-invoking enable must not double-wrap"; disable is "idempotent
  when already disabled"; activation is "gated by detection of the target module being
  loaded for the first time in the process; if the module is loaded again it should not
  be re-patched redundantly, and if it is never loaded, enable() has installed hooks that
  simply never fire".
\<close>

definition enable :: "instrumentation \<Rightarrow> 'd state \<Rightarrow> error + 'd state" where
  "enable instr s =
     (if enabled s then Inr s
      else (case loaded s of
              None \<Rightarrow> Inr (s\<lparr>enabled := True\<rparr>)
            | Some moduleExports \<Rightarrow>
                (case patch instr moduleExports s of
                   Inl e \<Rightarrow> Inl e
                 | Inr (exports, s') \<Rightarrow> Inr (s'\<lparr>enabled := True\<rparr>))))"

text \<open>Modelled from the spec: \<^verbatim>\<open>disable()\<close> "reverses all three wrap operations via
  the Method Interceptor, restoring original implementations. Idempotent when already
  disabled."\<close>

definition disable :: "instrumentation \<Rightarrow> 'd state \<Rightarrow> error + 'd state" where
  "disable instr s =
     (if \<not> enabled s then Inr s
      else (case loaded s of
              None \<Rightarrow> Inr (s\<lparr>enabled := False\<rparr>)
            | Some moduleExports \<Rightarrow>
                (case unpatch moduleExports s of
                   Inl e \<Rightarrow> Inl e
                 | Inr s' \<Rightarrow> Inr (s'\<lparr>enabled := False\<rparr>))))"

text \<open>Modelled from the spec: the module-load hook. The first load of the module is
  recorded, and patched when the instrumentation is enabled; a later load finds it
  recorded and does nothing.\<close>

definition onRequire :: "instrumentation \<Rightarrow> addr \<Rightarrow> 'd state \<Rightarrow> error + 'd state" where
  "onRequire instr moduleExports s =
     (case loaded s of
        Some already \<Rightarrow> Inr s
      | None \<Rightarrow>
          (if enabled s
           then (case patch instr moduleExports s of
                   Inl e \<Rightarrow> Inl e
                 | Inr (exports, s') \<Rightarrow> Inr (s'\<lparr>loaded := Some moduleExports\<rparr>))
           else Inr (s\<lparr>loaded := Some moduleExports\<rparr>)))"

section \<open>The client's calls and the reachable states\<close>

text \<open>A call \<^verbatim>\<open>receiver.methodName(...params)\<close> runs whatever the prototype holds under
  that name at the time of the call.\<close>

definition invoke ::
  "'d env \<Rightarrow> addr \<Rightarrow> string \<Rightarrow> jsval \<Rightarrow> jsval list \<Rightarrow> 'd state \<Rightarrow> outcome \<times> 'd state" where
  "invoke env proto methodName this params s =
     (case modules s (proto, methodName) of
        Some (Method f) \<Rightarrow> call_fn env f this params s
      | _ \<Rightarrow> throw_TypeError (methodName @ '' is not a function'') s)"

text \<open>The module as \<^verbatim>\<open>node:sqlite\<close> exports it: two classes whose prototypes hold the
  five native methods, each named as its property.\<close>

definition is_native :: "'d state \<Rightarrow> addr \<Rightarrow> string \<Rightarrow> bool" where
  "is_native s proto methodName =
     (case modules s (proto, methodName) of
        Some (Method (Native nm i)) \<Rightarrow> nm = methodName
      | _ \<Rightarrow> False)"

definition node_sqlite :: "addr \<Rightarrow> 'd state \<Rightarrow> bool" where
  "node_sqlite moduleExports s =
     (case (prototype_of s (modules s (moduleExports, ''DatabaseSync'')),
            prototype_of s (modules s (moduleExports, ''StatementSync''))) of
        (Inr dp, Inr sp) \<Rightarrow>
          list_all (is_native s dp) [''exec'', ''prepare''] \<and> list_all (is_native s sp) STMT_METHODS
      | _ \<Rightarrow> False)"

text \<open>The five instrumented prototype members of a module.\<close>

definition instrumented :: "addr \<Rightarrow> 'd state \<Rightarrow> (addr \<times> string) list" where
  "instrumented moduleExports s =
     (case (prototype_of s (modules s (moduleExports, ''DatabaseSync'')),
            prototype_of s (modules s (moduleExports, ''StatementSync''))) of
        (Inr dp, Inr sp) \<Rightarrow> map (Pair dp) [''exec'', ''prepare''] @ map (Pair sp) STMT_METHODS
      | _ \<Rightarrow> [])"

text \<open>Before anything happens the instrumentation is disabled, the module is not loaded
  and nothing is patched.\<close>

definition initial :: "addr \<Rightarrow> 'd state \<Rightarrow> bool" where
  "initial moduleExports s \<longleftrightarrow>
     \<not> enabled s \<and> loaded s = None \<and> patches s = Map.empty \<and> node_sqlite moduleExports s"

text \<open>The states that enabling, disabling, loading the module and calling methods lead
  to.\<close>

inductive reachable :: "'d env \<Rightarrow> instrumentation \<Rightarrow> addr \<Rightarrow> 'd state \<Rightarrow> 'd state \<Rightarrow> bool"
  for env :: "'d env" and instr :: instrumentation and moduleExports :: addr and s0 :: "'d state"
  where
    reach_start: "reachable env instr moduleExports s0 s0"
  | reach_enable:
      "reachable env instr moduleExports s0 s \<Longrightarrow> enable instr s = Inr s'
         \<Longrightarrow> reachable env instr moduleExports s0 s'"
  | reach_disable:
      "reachable env instr moduleExports s0 s \<Longrightarrow> disable instr s = Inr s'
         \<Longrightarrow> reachable env instr moduleExports s0 s'"
  | reach_require:
      "reachable env instr moduleExports s0 s \<Longrightarrow> onRequire instr moduleExports s = Inr s'
         \<Longrightarrow> reachable env instr moduleExports s0 s'"
  | reach_call:
      "reachable env instr moduleExports s0 s \<Longrightarrow> invoke env proto methodName this params s = (r, s')
         \<Longrightarrow> reachable env instr moduleExports s0 s'"

section \<open>Views of the trace\<close>

text \<open>The calls of \<^verbatim>\<open>setStatus\<close> and \<^verbatim>\<open>end\<close> on a given span, and the invocations of
  native methods.\<close>

fun is_setStatus :: "nat \<Rightarrow> event \<Rightarrow> bool" where
  "is_setStatus span (SetStatus sp st) = (sp = span)"
| "is_setStatus span e = False"

fun is_end :: "nat \<Rightarrow> event \<Rightarrow> bool" where
  "is_end span (End sp) = (sp = span)"
| "is_end span e = False"

fun is_nativeCall :: "event \<Rightarrow> bool" where
  "is_nativeCall (NativeCall i this params) = True"
| "is_nativeCall e = False"

text \<open>Two states agree on what the engine sees: the object heap and its own state.\<close>

definition same_engine :: "'d state \<Rightarrow> 'd state \<Rightarrow> bool" where
  "same_engine s t \<longleftrightarrow> objects s = objects t \<and> db s = db t"


text \<open>\<^verbatim>\<open>err\<close> has no \<^verbatim>\<open>message\<close> property: it is no object, or an object without
  one.\<close>

fun lacks_message :: "heap \<Rightarrow> jsval \<Rightarrow> bool" where
  "lacks_message h (JObj a) = (if a < length h then (h ! a) ''message'' = None else True)"
| "lacks_message h v = True"

section \<open>The patched module\<close>

text \<open>The closure that the factory given for a method name builds around \<open>original\<close>.\<close>

definition installed :: "instrumentation \<Rightarrow> string \<Rightarrow> fn \<Rightarrow> fn" where
  "installed instr methodName original =
     (if methodName = ''exec'' then Exec instr original
      else if methodName = ''prepare'' then Prepare instr original
      else StatementExecution instr original)"

text \<open>The module objects and the patch record once the members \<open>ks\<close> of the module
  objects \<open>m\<close> are wrapped.\<close>

definition patched_modules ::
  "instrumentation \<Rightarrow> (addr \<times> string) list \<Rightarrow> (addr \<times> string \<rightharpoonup> member) \<Rightarrow> (addr \<times> string \<rightharpoonup> member)" where
  "patched_modules instr ks m =
     (\<lambda>k. if k \<in> set ks
          then (case m k of Some (Method f) \<Rightarrow> Some (Method (installed instr (snd k) f)) | other \<Rightarrow> other)
          else m k)"

definition patched_patches ::
  "(addr \<times> string) list \<Rightarrow> (addr \<times> string \<rightharpoonup> member) \<Rightarrow> (addr \<times> string \<rightharpoonup> fn) \<Rightarrow> (addr \<times> string \<rightharpoonup> fn)" where
  "patched_patches ks m ps =
     (\<lambda>k. if k \<in> set ks then (case m k of Some (Method f) \<Rightarrow> Some f | other \<Rightarrow> None) else ps k)"

text \<open>The patch record invariant, relative to the state \<open>s0\<close> in which the module was
  untouched: while the instrumentation is enabled on the loaded module exactly the five
  members are wrapped, once, around their originals, and the patch record remembers those;
  otherwise the module is as it was and the patch record is empty.\<close>

definition consistent :: "instrumentation \<Rightarrow> addr \<Rightarrow> 'd state \<Rightarrow> 'd state \<Rightarrow> bool" where
  "consistent instr moduleExports s0 s \<longleftrightarrow>
     (loaded s = None \<or> loaded s = Some moduleExports) \<and>
     (if enabled s \<and> loaded s = Some moduleExports
      then modules s = patched_modules instr (instrumented moduleExports s0) (modules s0) \<and>
           patches s = patched_patches (instrumented moduleExports s0) (modules s0) Map.empty
      else modules s = modules s0 \<and> patches s = Map.empty)"

text \<open>The spans started in a trace.\<close>

fun is_startSpan :: "event \<Rightarrow> bool" where
  "is_startSpan (StartSpan span tr nm opts) = True"
| "is_startSpan e = False"

text \<open>A started span has the given tracer, name and kind; other events pass.\<close>

fun span_is :: "Tracer \<Rightarrow> string \<Rightarrow> SpanKind \<Rightarrow> event \<Rightarrow> bool" where
  "span_is tr nm k (StartSpan span tr' nm' opts) = (tr' = tr \<and> nm' = nm \<and> kind opts = k)"
| "span_is tr nm k e = True"

text \<open>An outcome that is a throw.\<close>

fun throws :: "outcome \<Rightarrow> bool" where
  "throws (Throw e) = True"
| "throws (Return v) = False"

text \<open>Two states agree on the module objects and the controller.\<close>

definition same_control :: "'d state \<Rightarrow> 'd state \<Rightarrow> bool" where
  "same_control s t \<longleftrightarrow>
     modules s = modules t \<and> patches s = patches t \<and> enabled s = enabled t \<and> loaded s = loaded t"

section \<open>A test fixture\<close>

text \<open>
  A small engine in the manner of \<^verbatim>\<open>test/index.js\<close>: \<^verbatim>\<open>exec\<close> (0) and
  \<^verbatim>\<open>prepare\<close> (1) throw a syntax error object for \<^verbatim>\<open>invalid-sql\<close>; otherwise
  \<^verbatim>\<open>exec\<close> returns \<^verbatim>\<open>undefined\<close> and \<^verbatim>\<open>prepare\<close> a new statement that keeps its
  source SQL. The statement methods (2, 3, 4) return a number; they throw the bare value
  \<^verbatim>\<open>null\<close> when their first argument is \<^verbatim>\<open>null\<close>, and throw the object they are given
  when it is an object. \<^verbatim>\<open>close\<close> (5) finalizes the statements: their \<^verbatim>\<open>sourceSQL\<close>
  becomes an accessor with the only getter (0), which throws a new error object. The
  module object is at address 0 of the module objects, and the heap starts with the
  connection object at address 0.
\<close>

definition finalize :: "(string \<rightharpoonup> property) \<Rightarrow> (string \<rightharpoonup> property)" where
  "finalize obj = (if obj ''sourceSQL'' = None then obj else obj(''sourceSQL'' \<mapsto> Accessor 0))"

definition sqlite_natives :: "nat \<Rightarrow> jsval \<Rightarrow> jsval list \<Rightarrow> heap \<times> nat \<Rightarrow> outcome \<times> heap \<times> nat" where
  "sqlite_natives i this params w =
     (case w of (h, d) \<Rightarrow>
        if i = 0 \<or> i = 1 then
          (if first_param params = JStr ''invalid-sql''
           then (Throw (JObj (length h)), h @ [[''message'' \<mapsto> Field (JStr ''syntax error'')]], d)
           else if i = 0 then (Return JUndefined, h, Suc d)
           else (Return (JObj (length h)), h @ [[''sourceSQL'' \<mapsto> Field (first_param params)]], d))
        else if i = 5 then (Return JUndefined, map finalize h, d)
        else (case first_param params of
                JNull \<Rightarrow> (Throw JNull, h, d)
              | JObj a \<Rightarrow> (Throw (JObj a), h, d)
              | other \<Rightarrow> (Return (JNum (int d)), h, Suc d)))"

definition sqlite_getters :: "nat \<Rightarrow> jsval \<Rightarrow> heap \<times> nat \<Rightarrow> outcome \<times> heap \<times> nat" where
  "sqlite_getters g this w =
     (case w of (h, d) \<Rightarrow>
        (Throw (JObj (length h)),
         h @ [[''message'' \<mapsto> Field (JStr ''statement has been finalized'')]], d))"

definition sqlite_module :: "addr \<times> string \<rightharpoonup> member" where
  "sqlite_module =
     [(0, ''DatabaseSync'') \<mapsto> Ref 1, (0, ''StatementSync'') \<mapsto> Ref 2,
      (1, ''prototype'') \<mapsto> Ref 3, (2, ''prototype'') \<mapsto> Ref 4,
      (3, ''exec'') \<mapsto> Method (Native ''exec'' 0),
      (3, ''prepare'') \<mapsto> Method (Native ''prepare'' 1),
      (3, ''close'') \<mapsto> Method (Native ''close'' 5),
      (4, ''all'') \<mapsto> Method (Native ''all'' 2),
      (4, ''get'') \<mapsto> Method (Native ''get'' 3),
      (4, ''run'') \<mapsto> Method (Native ''run'' 4)]"

definition test_env :: "nat env" where
  "test_env =
     \<lparr>pkg = \<lparr>pkg_name = ''opentelemetry-instrumentation-sqlite'', pkg_version = ''1.0.0''\<rparr>,
      ATTR_DB_QUERY_TEXT = ''db.query.text'', ATTR_DB_SYSTEM = ''db.system'',
      DB_SYSTEM_VALUE_SQLITE = ''sqlite'', natives = sqlite_natives, getters = sqlite_getters\<rparr>"

definition fresh :: "nat state" where
  "fresh = \<lparr>objects = [Map.empty], db = 0, trace = [], modules = sqlite_module, patches = Map.empty,
            enabled = False, loaded = None\<rparr>"

text \<open>The instrumentation under test; the state once the module has been required while
  the instrumentation is disabled; and the state once it has then been enabled.\<close>

definition the_instr :: instrumentation where
  "the_instr = SqliteInstrumentation test_env JUndefined"

definition required :: "nat state" where
  "required = fresh\<lparr>loaded := Some 0\<rparr>"

definition patched :: "nat state" where
  "patched = fresh\<lparr>modules := patched_modules the_instr (instrumented 0 fresh) (modules fresh),
                    patches := patched_patches (instrumented 0 fresh) (modules fresh) Map.empty,
                    enabled := True, loaded := Some 0\<rparr>"

text \<open>The state after a statement has been prepared with the instrumentation enabled.\<close>

definition prepared :: "nat state" where
  "prepared =
     patched\<lparr>objects := [Map.empty, [''sourceSQL'' \<mapsto> Field (JStr ''INSERT INTO test (id) VALUES (?)'')]],
             trace := [StartSpan 0 (tracer the_instr) ''prepare''
                         \<lparr>kind = CLIENT,
                          attributes = [''db.system'' \<mapsto> JStr ''sqlite'',
                                        ''db.query.text'' \<mapsto> JStr ''INSERT INTO test (id) VALUES (?)'']\<rparr>,
                       NativeCall 1 (JObj 0) [JStr ''INSERT INTO test (id) VALUES (?)''],
                       SetStatus 0 \<lparr>code = OK, message = None\<rparr>, End 0]\<rparr>"

text \<open>The state after the connection has then been closed.\<close>

definition closed :: "nat state" where
  "closed =
     prepared\<lparr>objects := [Map.empty, [''sourceSQL'' \<mapsto> Accessor 0]],
              trace := trace prepared @ [NativeCall 5 (JObj 0) []]\<rparr>"

text \<open>A heap with accessors that throw: object 1 is a statement whose \<^verbatim>\<open>sourceSQL\<close> is
  an accessor with the throwing getter, object 2 a value whose \<^verbatim>\<open>message\<close> is one.\<close>

definition unreadable :: "nat state" where
  "unreadable =
     fresh\<lparr>objects := [Map.empty, [''sourceSQL'' \<mapsto> Accessor 0], [''message'' \<mapsto> Accessor 0]]\<rparr>"

section \<open>Reading properties and the outcome of calls\<close>

lemma get_property_frame:
  "same_control (snd (get_property env a p s)) s \<and> trace (snd (get_property env a p s)) = trace s"
  by (auto simp: get_property_def same_control_def split: option.splits property.splits prod.splits)

lemma get_property_engine:
  assumes "same_engine s t"
  shows "fst (get_property env a p s) = fst (get_property env a p t) \<and>
         same_engine (snd (get_property env a p s)) (snd (get_property env a p t))"
  using assms
  by (auto simp: get_property_def same_engine_def split: option.splits property.splits prod.splits)

lemma optional_message_frame:
  "same_control (snd (optional_message env err s)) s \<and> trace (snd (optional_message env err s)) = trace s"
  using get_property_frame[of env _ "''message''" s]
  by (cases err) (simp_all add: same_control_def)

lemma optional_message_engine:
  assumes "same_engine s t"
  shows "fst (optional_message env err s) = fst (optional_message env err t) \<and>
         same_engine (snd (optional_message env err s)) (snd (optional_message env err t))"
  using assms get_property_engine[OF assms] by (cases err) simp_all

lemma this_sourceSQL_frame:
  "same_control (snd (this_sourceSQL env this s)) s \<and> trace (snd (this_sourceSQL env this s)) = trace s"
  using get_property_frame[of env _ "''sourceSQL''" s]
  by (cases this) (simp_all add: same_control_def throw_TypeError_def)

lemma this_sourceSQL_engine:
  assumes "same_engine s t"
  shows "fst (this_sourceSQL env this s) = fst (this_sourceSQL env this t) \<and>
         same_engine (snd (this_sourceSQL env this s)) (snd (this_sourceSQL env this t))"
  using assms get_property_engine[OF assms]
  by (cases this) (auto simp: same_engine_def throw_TypeError_def)

lemma genericWrap_Return:
  "original self params s = (Return result, s1) \<Longrightarrow>
     genericWrap env original self params span s =
       (Return result, span_end span (setStatus span \<lparr>code = OK, message = None\<rparr> s1))"
  by (simp add: genericWrap_def)

lemma genericWrap_Throw_read:
  "original self params s = (Throw err, s1) \<Longrightarrow> optional_message env err s1 = (Return msg, s2) \<Longrightarrow>
     genericWrap env original self params span s =
       (Throw err, span_end span (setStatus span \<lparr>code = ERROR, message = Some msg\<rparr> s2))"
  by (simp add: genericWrap_def)

lemma genericWrap_Throw_unread:
  "original self params s = (Throw err, s1) \<Longrightarrow> optional_message env err s1 = (Throw e, s2) \<Longrightarrow>
     genericWrap env original self params span s = (Throw e, span_end span s2)"
  by (simp add: genericWrap_def)

lemma genericWrap_returns_iff:
  "fst (genericWrap env original self params span s) = Return v \<longleftrightarrow>
     fst (original self params s) = Return v"
proof -
  obtain r s1 where o: "original self params s = (r, s1)" by (cases "original self params s")
  show ?thesis
  proof (cases r)
    case (Return w)
    with o show ?thesis by (simp add: genericWrap_def)
  next
    case (Throw err)
    obtain m s2 where "optional_message env err s1 = (m, s2)" by (cases "optional_message env err s1")
    with o Throw show ?thesis by (cases m) (simp_all add: genericWrap_def)
  qed
qed

lemma genericWrap_snd:
  "same_control (snd (genericWrap env original self params span s)) (snd (original self params s))
   \<and> (trace (snd (genericWrap env original self params span s))
          = trace (snd (original self params s)) @ [End span]
        \<or> (\<exists>st. trace (snd (genericWrap env original self params span s))
                  = trace (snd (original self params s)) @ [SetStatus span st, End span]))"
proof -
  obtain r s1 where o: "original self params s = (r, s1)" by (cases "original self params s")
  show ?thesis
  proof (cases r)
    case (Return w)
    with o show ?thesis
      by (simp add: genericWrap_def setStatus_def span_end_def same_control_def)
  next
    case (Throw err)
    obtain m s2 where om: "optional_message env err s1 = (m, s2)" by (cases "optional_message env err s1")
    from optional_message_frame[of env err s1] om have f: "same_control s2 s1" "trace s2 = trace s1"
      by simp_all
    show ?thesis
      using o Throw om f
      by (cases m) (simp_all add: genericWrap_def setStatus_def span_end_def same_control_def)
  qed
qed

lemma genericWrap_engine:
  assumes "fst (f self params s) = fst (g self params t)"
    and "same_engine (snd (f self params s)) (snd (g self params t))"
  shows "fst (genericWrap env f self params sp s) = fst (genericWrap env g self params sp' t) \<and>
         same_engine (snd (genericWrap env f self params sp s)) (snd (genericWrap env g self params sp' t))"
proof -
  obtain r s1 where o: "f self params s = (r, s1)" by (cases "f self params s")
  obtain r' t1 where o': "g self params t = (r', t1)" by (cases "g self params t")
  from assms o o' have eq: "r' = r" and se: "same_engine s1 t1" by simp_all
  show ?thesis
  proof (cases r)
    case (Return w)
    with o o' eq se show ?thesis
      by (simp add: genericWrap_def setStatus_def span_end_def same_engine_def)
  next
    case (Throw err)
    obtain m s2 where om: "optional_message env err s1 = (m, s2)" by (cases "optional_message env err s1")
    obtain m' t2 where om': "optional_message env err t1 = (m', t2)" by (cases "optional_message env err t1")
    from optional_message_engine[OF se, of env err] om om' have meq: "m' = m" and se2: "same_engine s2 t2"
      by simp_all
    show ?thesis
      using o o' eq Throw om om' meq se2
      by (cases m) (simp_all add: genericWrap_def setStatus_def span_end_def same_engine_def)
  qed
qed


lemma same_engine_trace: "same_engine s t \<Longrightarrow> same_engine (s\<lparr>trace := x\<rparr>) (t\<lparr>trace := y\<rparr>)"
  by (simp add: same_engine_def)

lemma genericWrap_call_engine:
  assumes "same_engine s t"
    and "\<And>s t. same_engine s t \<Longrightarrow>
           fst (call_fn env f this params s) = fst (call_fn env f this params t) \<and>
           same_engine (snd (call_fn env f this params s)) (snd (call_fn env f this params t))"
  shows "fst (genericWrap env (call_fn env f) this params sp (s\<lparr>trace := x\<rparr>)) =
           fst (genericWrap env (call_fn env f) this params sp' (t\<lparr>trace := y\<rparr>)) \<and>
         same_engine (snd (genericWrap env (call_fn env f) this params sp (s\<lparr>trace := x\<rparr>)))
           (snd (genericWrap env (call_fn env f) this params sp' (t\<lparr>trace := y\<rparr>)))"
proof (rule genericWrap_engine)
  have se: "same_engine (s\<lparr>trace := x\<rparr>) (t\<lparr>trace := y\<rparr>)"
    using assms(1) by (rule same_engine_trace)
  show "fst (call_fn env f this params (s\<lparr>trace := x\<rparr>)) = fst (call_fn env f this params (t\<lparr>trace := y\<rparr>))"
    using assms(2)[OF se] by simp
  show "same_engine (snd (call_fn env f this params (s\<lparr>trace := x\<rparr>)))
          (snd (call_fn env f this params (t\<lparr>trace := y\<rparr>)))"
    using assms(2)[OF se] by simp
qed

lemma call_fn_engine:
  "same_engine s t \<Longrightarrow>
     fst (call_fn env f this params s) = fst (call_fn env f this params t) \<and>
     same_engine (snd (call_fn env f this params s)) (snd (call_fn env f this params t))"
proof (induction f arbitrary: s t)
  case (Native nm i)
  then show ?case by (auto simp: same_engine_def native_apply_def split: prod.splits)
next
  case (Exec instr f)
  show ?case
    using genericWrap_call_engine[OF Exec.prems Exec.IH]
    by (simp add: exec_def startSpan_def)
next
  case (Prepare instr f)
  show ?case
    using genericWrap_call_engine[OF Prepare.prems Prepare.IH]
    by (simp add: prepare_def startSpan_def)
next
  case (StatementExecution instr f)
  note src = this_sourceSQL_engine[OF StatementExecution.prems, of env this]
  obtain r s0 where rs: "this_sourceSQL env this s = (r, s0)" by (cases "this_sourceSQL env this s")
  obtain r' t0 where rt: "this_sourceSQL env this t = (r', t0)" by (cases "this_sourceSQL env this t")
  from src rs rt have eq: "r' = r" and se: "same_engine s0 t0" by simp_all
  show ?case
  proof (cases r)
    case (Throw e)
    with rs rt eq se show ?thesis by (simp add: statementExecution_def)
  next
    case (Return sql)
    show ?thesis
      using genericWrap_call_engine[OF se StatementExecution.IH] rs rt eq Return
      by (simp add: statementExecution_def startSpan_def)
  qed
qed

lemma exec_as_genericWrap:
  "call_fn env (Exec instr f) this params s =
     genericWrap env (call_fn env f) this params (length (trace s))
       (s\<lparr>trace := trace s @ [StartSpan (length (trace s)) (tracer instr) (fn_name f)
           \<lparr>kind = CLIENT, attributes = [ATTR_DB_SYSTEM env \<mapsto> JStr (DB_SYSTEM_VALUE_SQLITE env)]\<rparr>]\<rparr>)"
  by (simp add: exec_def startSpan_def)

lemma prepare_as_genericWrap:
  "call_fn env (Prepare instr f) this params s =
     genericWrap env (call_fn env f) this params (length (trace s))
       (s\<lparr>trace := trace s @ [StartSpan (length (trace s)) (tracer instr) (fn_name f)
           \<lparr>kind = CLIENT, attributes = [ATTR_DB_SYSTEM env \<mapsto> JStr (DB_SYSTEM_VALUE_SQLITE env),
                                         ATTR_DB_QUERY_TEXT env \<mapsto> first_param params]\<rparr>]\<rparr>)"
  by (simp add: prepare_def startSpan_def)

lemma statementExecution_as_genericWrap:
  assumes "this_sourceSQL env this s = (Return sql, s0)"
  shows "call_fn env (StatementExecution instr f) this params s =
     genericWrap env (call_fn env f) this params (length (trace s0))
       (s0\<lparr>trace := trace s0 @ [StartSpan (length (trace s0)) (tracer instr) (fn_name f)
           \<lparr>kind = CLIENT, attributes = [ATTR_DB_SYSTEM env \<mapsto> JStr (DB_SYSTEM_VALUE_SQLITE env),
                                         ATTR_DB_QUERY_TEXT env \<mapsto> sql]\<rparr>]\<rparr>)"
  using assms by (simp add: statementExecution_def startSpan_def)

lemma statementExecution_unread:
  assumes "this_sourceSQL env this s = (Throw e, s0)"
  shows "call_fn env (StatementExecution instr f) this params s = (Throw e, s0)"
  using assms by (simp add: statementExecution_def)

lemma call_fn_trace_irrelevant:
  "fst (call_fn env f this params (s\<lparr>trace := x\<rparr>)) = fst (call_fn env f this params s)"
  "same_engine (snd (call_fn env f this params (s\<lparr>trace := x\<rparr>))) (snd (call_fn env f this params s))"
proof -
  have "same_engine (s\<lparr>trace := x\<rparr>) s" by (simp add: same_engine_def)
  from call_fn_engine[OF this, of env f this params]
  show "fst (call_fn env f this params (s\<lparr>trace := x\<rparr>)) = fst (call_fn env f this params s)"
    "same_engine (snd (call_fn env f this params (s\<lparr>trace := x\<rparr>))) (snd (call_fn env f this params s))"
    by simp_all
qed

lemma exec_returns_iff:
  "fst (call_fn env (Exec instr f) this params s) = Return v \<longleftrightarrow>
     fst (call_fn env f this params s) = Return v"
  unfolding exec_as_genericWrap genericWrap_returns_iff call_fn_trace_irrelevant(1) ..

lemma prepare_returns_iff:
  "fst (call_fn env (Prepare instr f) this params s) = Return v \<longleftrightarrow>
     fst (call_fn env f this params s) = Return v"
  unfolding prepare_as_genericWrap genericWrap_returns_iff call_fn_trace_irrelevant(1) ..

lemma statementExecution_returns_iff:
  assumes "this_sourceSQL env this s = (Return sql, s0)"
  shows "fst (call_fn env (StatementExecution instr f) this params s) = Return v \<longleftrightarrow>
           fst (call_fn env f this params s0) = Return v"
  unfolding statementExecution_as_genericWrap[OF assms] genericWrap_returns_iff
    call_fn_trace_irrelevant(1) ..

lemma statementExecution_ReturnD:
  assumes "fst (call_fn env (StatementExecution instr f) this params s) = Return v"
  shows "\<exists>sql s0. this_sourceSQL env this s = (Return sql, s0) \<and>
           fst (call_fn env f this params s0) = Return v"
proof -
  obtain r s0 where rs: "this_sourceSQL env this s = (r, s0)" by (cases "this_sourceSQL env this s")
  show ?thesis
  proof (cases r)
    case (Throw e)
    with rs assms statementExecution_unread[of env this s e s0 instr f params] show ?thesis by simp
  next
    case (Return sql)
    with rs assms statementExecution_returns_iff[of env this s sql s0 instr f params v]
    show ?thesis by blast
  qed
qed

lemma native_genericWrap_calls:
  "filter is_nativeCall (trace (snd (genericWrap env (call_fn env (Native nm i)) self params span s)))
     = filter is_nativeCall (trace s) @ [NativeCall i self params]"
proof -
  have c: "trace (snd (call_fn env (Native nm i) self params s)) = trace s @ [NativeCall i self params]"
    by (simp add: native_apply_def split: prod.splits)
  from genericWrap_snd[of env "call_fn env (Native nm i)" self params span s]
  show ?thesis unfolding c by auto
qed




lemma field_sourceSQL:
  assumes "a < length (objects s)" and "(objects s ! a) ''sourceSQL'' = Some (Field v)"
  shows "this_sourceSQL env (JObj a) s = (Return v, s)"
  using assms by (simp add: get_property_def)

section \<open>Properties of the span lifecycle helper\<close>

text \<open>
  C1 as stated fails: a statement whose \<^verbatim>\<open>sourceSQL\<close> cannot be read makes the wrapped
  \<^verbatim>\<open>all\<close> throw at \<^verbatim>\<open>this.sourceSQL\<close>, while the original method returns a value.
\<close>

theorem wrapped_statement_counterexample:
  "fst (call_fn test_env (Native ''all'' 2) (JObj 1) [JNum 1] unreadable) = Return (JNum 0)
   \<and> fst (call_fn test_env (StatementExecution the_instr (Native ''all'' 2)) (JObj 1) [JNum 1] unreadable)
       = Throw (JObj 3)"
  by (simp add: statementExecution_def get_property_def native_apply_def unreadable_def fresh_def
      test_env_def sqlite_natives_def sqlite_getters_def first_param_def)

text \<open>
  C1, amended. \<^verbatim>\<open>genericWrap\<close> applies the operation once to the given receiver and
  arguments: when that application returns \<open>result\<close> in state \<open>s1\<close>, the helper returns
  the same \<open>result\<close> from \<open>s1\<close> with the status OK set and the span ended; it returns
  a value exactly when the operation does, and a native operation is recorded as invoked
  exactly once, with that receiver and those arguments. Hence the wrapped \<^verbatim>\<open>exec\<close> and
  \<^verbatim>\<open>prepare\<close> return exactly what the original returns on every input, and a wrapped
  statement method does whenever its read of \<^verbatim>\<open>this.sourceSQL\<close> returns and leaves the
  engine as it was, as the read of a data property does.
\<close>

theorem genericWrap_result_unchanged:
  "(\<forall>result s1. original self params s = (Return result, s1) \<longrightarrow>
      genericWrap env original self params span s =
        (Return result, span_end span (setStatus span \<lparr>code = OK, message = None\<rparr> s1)))
   \<and> (\<forall>v. fst (genericWrap env original self params span s) = Return v \<longleftrightarrow>
           fst (original self params s) = Return v)
   \<and> filter is_nativeCall (trace (snd (genericWrap env (call_fn env (Native nm i)) self params span s)))
       = filter is_nativeCall (trace s) @ [NativeCall i self params]
   \<and> (\<forall>v. fst (call_fn env (Exec instr f) self params s) = Return v \<longleftrightarrow>
           fst (call_fn env f self params s) = Return v)
   \<and> (\<forall>v. fst (call_fn env (Prepare instr f) self params s) = Return v \<longleftrightarrow>
           fst (call_fn env f self params s) = Return v)
   \<and> (\<forall>sql s0 v. this_sourceSQL env self s = (Return sql, s0) \<and> same_engine s0 s \<longrightarrow>
           (fst (call_fn env (StatementExecution instr f) self params s) = Return v \<longleftrightarrow>
            fst (call_fn env f self params s) = Return v))
   \<and> (\<forall>a q. self = JObj a \<and> a < length (objects s) \<and> (objects s ! a) ''sourceSQL'' = Some (Field q) \<longrightarrow>
           this_sourceSQL env self s = (Return q, s))"
proof -
  have 1: "\<forall>result s1. original self params s = (Return result, s1) \<longrightarrow>
      genericWrap env original self params span s =
        (Return result, span_end span (setStatus span \<lparr>code = OK, message = None\<rparr> s1))"
    by (simp add: genericWrap_Return)
  have 2: "\<forall>v. fst (genericWrap env original self params span s) = Return v \<longleftrightarrow>
           fst (original self params s) = Return v"
    by (simp add: genericWrap_returns_iff)
  have 4: "\<forall>v. fst (call_fn env (Exec instr f) self params s) = Return v \<longleftrightarrow>
           fst (call_fn env f self params s) = Return v"
    using exec_returns_iff[of env instr f self params s] by blast
  have 5: "\<forall>v. fst (call_fn env (Prepare instr f) self params s) = Return v \<longleftrightarrow>
           fst (call_fn env f self params s) = Return v"
    using prepare_returns_iff[of env instr f self params s] by blast
  have 6: "\<forall>sql s0 v. this_sourceSQL env self s = (Return sql, s0) \<and> same_engine s0 s \<longrightarrow>
           (fst (call_fn env (StatementExecution instr f) self params s) = Return v \<longleftrightarrow>
            fst (call_fn env f self params s) = Return v)"
  proof (intro allI impI)
    fix sql s0 v
    assume a: "this_sourceSQL env self s = (Return sql, s0) \<and> same_engine s0 s"
    then have "fst (call_fn env f self params s0) = fst (call_fn env f self params s)"
      using call_fn_engine[of s0 s env f self params] by simp
    with a statementExecution_returns_iff[of env self s sql s0 instr f params v]
    show "fst (call_fn env (StatementExecution instr f) self params s) = Return v \<longleftrightarrow>
            fst (call_fn env f self params s) = Return v"
      by simp
  qed
  have 7: "\<forall>a q. self = JObj a \<and> a < length (objects s) \<and> (objects s ! a) ''sourceSQL'' = Some (Field q) \<longrightarrow>
           this_sourceSQL env self s = (Return q, s)"
    using field_sourceSQL by blast
  show ?thesis
    by (intro conjI 1 2 native_genericWrap_calls 4 5 6 7)
qed

theorem genericWrap_result_unchanged_witness:
  "call_fn test_env (Native ''exec'' 0) (JObj 0) [JStr ''CREATE TABLE test (id NUMBER)''] fresh
     = (Return JUndefined, fresh\<lparr>db := 1, trace := [NativeCall 0 (JObj 0) [JStr ''CREATE TABLE test (id NUMBER)'']]\<rparr>)
   \<and> genericWrap test_env (call_fn test_env (Native ''exec'' 0)) (JObj 0)
        [JStr ''CREATE TABLE test (id NUMBER)''] 7 fresh
     = (Return JUndefined,
        fresh\<lparr>db := 1,
              trace := [NativeCall 0 (JObj 0) [JStr ''CREATE TABLE test (id NUMBER)''],
                        SetStatus 7 \<lparr>code = OK, message = None\<rparr>, End 7]\<rparr>)
   \<and> this_sourceSQL test_env (JObj 0) fresh = (Return JUndefined, fresh)
   \<and> same_engine fresh fresh
   \<and> fst (call_fn test_env (Native ''run'' 4) (JObj 0) [JStr ''CREATE TABLE test (id NUMBER)''] fresh)
       = Return (JNum 0)
   \<and> fst (call_fn test_env (StatementExecution the_instr (Native ''run'' 4)) (JObj 0)
             [JStr ''CREATE TABLE test (id NUMBER)''] fresh) = Return (JNum 0)"
proof -
  have h: "call_fn test_env (Native ''exec'' 0) (JObj 0) [JStr ''CREATE TABLE test (id NUMBER)''] fresh
     = (Return JUndefined, fresh\<lparr>db := 1, trace := [NativeCall 0 (JObj 0) [JStr ''CREATE TABLE test (id NUMBER)'']]\<rparr>)"
    by (simp add: native_apply_def test_env_def sqlite_natives_def first_param_def fresh_def)
  have r: "this_sourceSQL test_env (JObj 0) fresh = (Return JUndefined, fresh)"
    by (simp add: get_property_def fresh_def)
  have e: "same_engine fresh fresh" by (simp add: same_engine_def)
  have k: "fst (call_fn test_env (Native ''run'' 4) (JObj 0) [JStr ''CREATE TABLE test (id NUMBER)''] fresh)
       = Return (JNum 0)"
    by (simp add: native_apply_def test_env_def sqlite_natives_def first_param_def fresh_def)
  note t = genericWrap_result_unchanged[of "call_fn test_env (Native ''exec'' 0)" "JObj 0"
        "[JStr ''CREATE TABLE test (id NUMBER)'']" fresh test_env 7 "''exec''" 0 the_instr "Native ''run'' 4"]
  from t h have g: "genericWrap test_env (call_fn test_env (Native ''exec'' 0)) (JObj 0)
        [JStr ''CREATE TABLE test (id NUMBER)''] 7 fresh
     = (Return JUndefined, span_end 7 (setStatus 7 \<lparr>code = OK, message = None\<rparr>
          (fresh\<lparr>db := 1, trace := [NativeCall 0 (JObj 0) [JStr ''CREATE TABLE test (id NUMBER)'']]\<rparr>)))"
    by blast
  from t r e have "fst (call_fn test_env (StatementExecution the_instr (Native ''run'' 4)) (JObj 0)
             [JStr ''CREATE TABLE test (id NUMBER)''] fresh) = Return (JNum 0) \<longleftrightarrow>
      fst (call_fn test_env (Native ''run'' 4) (JObj 0) [JStr ''CREATE TABLE test (id NUMBER)''] fresh)
       = Return (JNum 0)"
    by blast
  with k have w: "fst (call_fn test_env (StatementExecution the_instr (Native ''run'' 4)) (JObj 0)
             [JStr ''CREATE TABLE test (id NUMBER)''] fresh) = Return (JNum 0)"
    by simp
  show ?thesis
    using g by (intro conjI h r e k w) (simp add: span_end_def setStatus_def)
qed






lemma genericWrap_setStatus_once:
  assumes "fst (original self params s) = Return v \<or>
           (\<exists>err msg s2. fst (original self params s) = Throw err \<and>
               optional_message env err (snd (original self params s)) = (Return msg, s2))"
  shows "\<exists>st. trace (snd (genericWrap env original self params span s))
               = trace (snd (original self params s)) @ [SetStatus span st, End span]"
proof -
  obtain r s1 where o: "original self params s = (r, s1)" by (cases "original self params s")
  show ?thesis
  proof (cases r)
    case (Return w)
    with o show ?thesis by (simp add: genericWrap_def setStatus_def span_end_def)
  next
    case (Throw err)
    with assms o obtain msg s2 where om: "optional_message env err s1 = (Return msg, s2)" by auto
    from optional_message_frame[of env err s1] om have "trace s2 = trace s1" by simp
    with o Throw om show ?thesis by (simp add: genericWrap_def setStatus_def span_end_def)
  qed
qed

text \<open>
  C3 as stated fails: when the thrown value's \<^verbatim>\<open>message\<close> cannot be read, the span is
  ended but \<^verbatim>\<open>setStatus\<close> is not called at all.
\<close>

theorem setStatus_skipped_counterexample:
  "trace unreadable = []
   \<and> trace (snd (genericWrap test_env (call_fn test_env (Native ''all'' 2)) (JObj 1) [JObj 2] 7 unreadable))
       = [NativeCall 2 (JObj 1) [JObj 2], End 7]"
  by (simp add: genericWrap_def get_property_def native_apply_def unreadable_def fresh_def
      test_env_def sqlite_natives_def sqlite_getters_def first_param_def span_end_def)

text \<open>
  C3, amended. On every path \<^verbatim>\<open>genericWrap\<close> adds to what one application of the
  operation did exactly one \<^verbatim>\<open>end\<close> on its span, as the last event, and at most one
  \<^verbatim>\<open>setStatus\<close>; it adds exactly one \<^verbatim>\<open>setStatus\<close> when the operation returns, and
  when it throws a value whose \<^verbatim>\<open>message\<close> can be read. With a native operation the
  span has one more \<^verbatim>\<open>end\<close> than before the call and exactly one native invocation is
  recorded.
\<close>

theorem genericWrap_exactly_once:
  "(trace (snd (genericWrap env original self params span s))
      = trace (snd (original self params s)) @ [End span]
    \<or> (\<exists>st. trace (snd (genericWrap env original self params span s))
              = trace (snd (original self params s)) @ [SetStatus span st, End span]))
   \<and> length (filter (is_end span) (trace (snd (genericWrap env original self params span s))))
       = Suc (length (filter (is_end span) (trace (snd (original self params s)))))
   \<and> length (filter (is_setStatus span) (trace (snd (genericWrap env original self params span s))))
       \<le> Suc (length (filter (is_setStatus span) (trace (snd (original self params s)))))
   \<and> (\<forall>v. fst (original self params s) = Return v \<longrightarrow>
         length (filter (is_setStatus span) (trace (snd (genericWrap env original self params span s))))
           = Suc (length (filter (is_setStatus span) (trace (snd (original self params s))))))
   \<and> (\<forall>err msg s2. fst (original self params s) = Throw err \<and>
           optional_message env err (snd (original self params s)) = (Return msg, s2) \<longrightarrow>
         length (filter (is_setStatus span) (trace (snd (genericWrap env original self params span s))))
           = Suc (length (filter (is_setStatus span) (trace (snd (original self params s))))))
   \<and> length (filter (is_end span)
         (trace (snd (genericWrap env (call_fn env (Native nm i)) self params span s))))
       = Suc (length (filter (is_end span) (trace s)))
   \<and> length (filter is_nativeCall
         (trace (snd (genericWrap env (call_fn env (Native nm i)) self params span s))))
       = Suc (length (filter is_nativeCall (trace s)))"
proof -
  note a = genericWrap_snd[of env original self params span s, THEN conjunct2]
  have 2: "length (filter (is_end span) (trace (snd (genericWrap env original self params span s))))
       = Suc (length (filter (is_end span) (trace (snd (original self params s)))))"
    using a by auto
  have 3: "length (filter (is_setStatus span) (trace (snd (genericWrap env original self params span s))))
       \<le> Suc (length (filter (is_setStatus span) (trace (snd (original self params s)))))"
    using a by auto
  have 4: "\<forall>v. fst (original self params s) = Return v \<longrightarrow>
         length (filter (is_setStatus span) (trace (snd (genericWrap env original self params span s))))
           = Suc (length (filter (is_setStatus span) (trace (snd (original self params s)))))"
  proof (intro allI impI)
    fix v assume "fst (original self params s) = Return v"
    then obtain st where "trace (snd (genericWrap env original self params span s))
               = trace (snd (original self params s)) @ [SetStatus span st, End span]"
      using genericWrap_setStatus_once[of original self params s v env span] by blast
    then show "length (filter (is_setStatus span) (trace (snd (genericWrap env original self params span s))))
           = Suc (length (filter (is_setStatus span) (trace (snd (original self params s)))))"
      by simp
  qed
  have 5: "\<forall>err msg s2. fst (original self params s) = Throw err \<and>
           optional_message env err (snd (original self params s)) = (Return msg, s2) \<longrightarrow>
         length (filter (is_setStatus span) (trace (snd (genericWrap env original self params span s))))
           = Suc (length (filter (is_setStatus span) (trace (snd (original self params s)))))"
  proof (intro allI impI)
    fix err msg s2 assume "fst (original self params s) = Throw err \<and>
           optional_message env err (snd (original self params s)) = (Return msg, s2)"
    then obtain st where "trace (snd (genericWrap env original self params span s))
               = trace (snd (original self params s)) @ [SetStatus span st, End span]"
      using genericWrap_setStatus_once[of original self params s _ env span] by blast
    then show "length (filter (is_setStatus span) (trace (snd (genericWrap env original self params span s))))
           = Suc (length (filter (is_setStatus span) (trace (snd (original self params s)))))"
      by simp
  qed
  have c: "trace (snd (call_fn env (Native nm i) self params s)) = trace s @ [NativeCall i self params]"
    by (simp add: native_apply_def split: prod.splits)
  note b = genericWrap_snd[of env "call_fn env (Native nm i)" self params span s, THEN conjunct2,
      unfolded c]
  have 6: "length (filter (is_end span)
         (trace (snd (genericWrap env (call_fn env (Native nm i)) self params span s))))
       = Suc (length (filter (is_end span) (trace s)))"
    using b by auto
  have 7: "length (filter is_nativeCall
         (trace (snd (genericWrap env (call_fn env (Native nm i)) self params span s))))
       = Suc (length (filter is_nativeCall (trace s)))"
    using b by auto
  show ?thesis by (intro conjI a 2 3 4 5 6 7)
qed

theorem genericWrap_exactly_once_witness:
  "fst (call_fn test_env (Native ''prepare'' 1) (JObj 0) [JStr ''invalid-sql''] fresh) = Throw (JObj 1)
   \<and> optional_message test_env (JObj 1)
        (snd (call_fn test_env (Native ''prepare'' 1) (JObj 0) [JStr ''invalid-sql''] fresh))
       = (Return (JStr ''syntax error''),
          snd (call_fn test_env (Native ''prepare'' 1) (JObj 0) [JStr ''invalid-sql''] fresh))
   \<and> length (filter (is_setStatus 7) (trace (snd (genericWrap test_env
         (call_fn test_env (Native ''prepare'' 1)) (JObj 0) [JStr ''invalid-sql''] 7 fresh)))) = 1
   \<and> length (filter (is_end 7) (trace (snd (genericWrap test_env
         (call_fn test_env (Native ''prepare'' 1)) (JObj 0) [JStr ''invalid-sql''] 7 fresh)))) = 1
   \<and> length (filter is_nativeCall (trace (snd (genericWrap test_env
         (call_fn test_env (Native ''prepare'' 1)) (JObj 0) [JStr ''invalid-sql''] 7 fresh)))) = 1"
proof -
  have h: "call_fn test_env (Native ''prepare'' 1) (JObj 0) [JStr ''invalid-sql''] fresh
     = (Throw (JObj 1),
        fresh\<lparr>objects := [Map.empty, [''message'' \<mapsto> Field (JStr ''syntax error'')]],
              trace := [NativeCall 1 (JObj 0) [JStr ''invalid-sql'']]\<rparr>)"
    by (simp add: native_apply_def test_env_def sqlite_natives_def first_param_def fresh_def)
  have h1: "fst (call_fn test_env (Native ''prepare'' 1) (JObj 0) [JStr ''invalid-sql''] fresh) = Throw (JObj 1)"
    by (simp only: h fst_conv)
  have o: "optional_message test_env (JObj 1)
        (snd (call_fn test_env (Native ''prepare'' 1) (JObj 0) [JStr ''invalid-sql''] fresh))
       = (Return (JStr ''syntax error''),
          snd (call_fn test_env (Native ''prepare'' 1) (JObj 0) [JStr ''invalid-sql''] fresh))"
    unfolding h by (simp add: get_property_def)
  have z: "trace fresh = []" "trace (snd (call_fn test_env (Native ''prepare'' 1) (JObj 0) [JStr ''invalid-sql''] fresh))
      = [NativeCall 1 (JObj 0) [JStr ''invalid-sql'']]"
    unfolding h by (simp_all add: fresh_def)
  note t = genericWrap_exactly_once[of test_env "call_fn test_env (Native ''prepare'' 1)" "JObj 0"
      "[JStr ''invalid-sql'']" 7 fresh "''prepare''" 1]
  from t h1 o have 1: "length (filter (is_setStatus 7) (trace (snd (genericWrap test_env
         (call_fn test_env (Native ''prepare'' 1)) (JObj 0) [JStr ''invalid-sql''] 7 fresh))))
       = Suc (length (filter (is_setStatus 7) (trace (snd (call_fn test_env (Native ''prepare'' 1) (JObj 0) [JStr ''invalid-sql''] fresh)))))"
    by blast
  from t have 2: "length (filter (is_end 7) (trace (snd (genericWrap test_env
         (call_fn test_env (Native ''prepare'' 1)) (JObj 0) [JStr ''invalid-sql''] 7 fresh))))
       = Suc (length (filter (is_end 7) (trace fresh)))"
    and 3: "length (filter is_nativeCall (trace (snd (genericWrap test_env
         (call_fn test_env (Native ''prepare'' 1)) (JObj 0) [JStr ''invalid-sql''] 7 fresh))))
       = Suc (length (filter is_nativeCall (trace fresh)))"
    by blast+
  show ?thesis
    using 1[unfolded z(2)] 2[unfolded z(1)] 3[unfolded z(1)] by (intro conjI h1 o) simp_all
qed

text \<open>
  C9. When the thrown value has no \<^verbatim>\<open>message\<close> property (\<^verbatim>\<open>null\<close>,
  \<^verbatim>\<open>undefined\<close>, a primitive, or an object without one), \<^verbatim>\<open>genericWrap\<close> still sets
  the status ERROR, with the message \<^verbatim>\<open>undefined\<close>, ends the span and throws the
  original value again.
\<close>

theorem genericWrap_error_without_message:
  assumes "original self params s = (Throw err, s1)" and "lacks_message (objects s1) err"
  shows "genericWrap env original self params span s =
           (Throw err, span_end span (setStatus span \<lparr>code = ERROR, message = Some JUndefined\<rparr> s1))"
proof -
  have "optional_message env err s1 = (Return JUndefined, s1)"
    using assms(2) by (cases err) (auto simp: get_property_def split: if_splits)
  with assms(1) show ?thesis by (rule genericWrap_Throw_read)
qed

theorem genericWrap_error_without_message_witness:
  "call_fn test_env (Native ''all'' 2) (JObj 0) [JNull] fresh
     = (Throw JNull, fresh\<lparr>trace := [NativeCall 2 (JObj 0) [JNull]]\<rparr>)
   \<and> lacks_message (objects (fresh\<lparr>trace := [NativeCall 2 (JObj 0) [JNull]]\<rparr>)) JNull
   \<and> genericWrap test_env (call_fn test_env (Native ''all'' 2)) (JObj 0) [JNull] 7 fresh
     = (Throw JNull,
        fresh\<lparr>trace := [NativeCall 2 (JObj 0) [JNull],
                        SetStatus 7 \<lparr>code = ERROR, message = Some JUndefined\<rparr>, End 7]\<rparr>)"
proof -
  have h: "call_fn test_env (Native ''all'' 2) (JObj 0) [JNull] fresh
     = (Throw JNull, fresh\<lparr>trace := [NativeCall 2 (JObj 0) [JNull]]\<rparr>)"
    by (simp add: native_apply_def test_env_def sqlite_natives_def first_param_def fresh_def)
  have k: "lacks_message (objects (fresh\<lparr>trace := [NativeCall 2 (JObj 0) [JNull]]\<rparr>)) JNull"
    by simp
  show ?thesis
    using h k genericWrap_error_without_message[of "call_fn test_env (Native ''all'' 2)" "JObj 0"
        "[JNull]" fresh JNull "fresh\<lparr>trace := [NativeCall 2 (JObj 0) [JNull]]\<rparr>" test_env 7]
    by (simp add: span_end_def setStatus_def)
qed

section \<open>Patching and unpatching\<close>

lemma node_sqliteD:
  assumes "node_sqlite me s"
  obtains c1 c2 dp sp i1 i2 i3 i4 i5 where
    "modules s (me, ''DatabaseSync'') = Some (Ref c1)" "modules s (c1, ''prototype'') = Some (Ref dp)"
    "modules s (me, ''StatementSync'') = Some (Ref c2)" "modules s (c2, ''prototype'') = Some (Ref sp)"
    "modules s (dp, ''exec'') = Some (Method (Native ''exec'' i1))"
    "modules s (dp, ''prepare'') = Some (Method (Native ''prepare'' i2))"
    "modules s (sp, ''all'') = Some (Method (Native ''all'' i3))"
    "modules s (sp, ''get'') = Some (Method (Native ''get'' i4))"
    "modules s (sp, ''run'') = Some (Method (Native ''run'' i5))"
    "instrumented me s = [(dp, ''exec''), (dp, ''prepare''), (sp, ''all''), (sp, ''get''), (sp, ''run'')]"
  using assms
  by (auto simp: node_sqlite_def instrumented_def prototype_of_def is_native_def STMT_METHODS_def
      split: option.splits member.splits sum.splits fn.splits)

lemma patch_patched:
  assumes "node_sqlite me s" and "\<forall>k\<in>set (instrumented me s). patches s k = None"
  shows "patch instr me s =
           Inr (me, s\<lparr>modules := patched_modules instr (instrumented me s) (modules s),
                      patches := patched_patches (instrumented me s) (modules s) (patches s)\<rparr>)"
proof -
  from assms(1) obtain c1 c2 dp sp i1 i2 i3 i4 i5 where m:
    "modules s (me, ''DatabaseSync'') = Some (Ref c1)" "modules s (c1, ''prototype'') = Some (Ref dp)"
    "modules s (me, ''StatementSync'') = Some (Ref c2)" "modules s (c2, ''prototype'') = Some (Ref sp)"
    "modules s (dp, ''exec'') = Some (Method (Native ''exec'' i1))"
    "modules s (dp, ''prepare'') = Some (Method (Native ''prepare'' i2))"
    "modules s (sp, ''all'') = Some (Method (Native ''all'' i3))"
    "modules s (sp, ''get'') = Some (Method (Native ''get'' i4))"
    "modules s (sp, ''run'') = Some (Method (Native ''run'' i5))"
    and ks: "instrumented me s = [(dp, ''exec''), (dp, ''prepare''), (sp, ''all''), (sp, ''get''), (sp, ''run'')]"
    by (rule node_sqliteD)
  from assms(2) have p: "patches s (dp, ''exec'') = None" "patches s (dp, ''prepare'') = None"
    "patches s (sp, ''all'') = None" "patches s (sp, ''get'') = None" "patches s (sp, ''run'') = None"
    by (simp_all add: ks)
  have mo: "(modules s)((dp, ''exec'') \<mapsto> Method (Exec instr (Native ''exec'' i1)),
               (dp, ''prepare'') \<mapsto> Method (Prepare instr (Native ''prepare'' i2)),
               (sp, ''all'') \<mapsto> Method (StatementExecution instr (Native ''all'' i3)),
               (sp, ''get'') \<mapsto> Method (StatementExecution instr (Native ''get'' i4)),
               (sp, ''run'') \<mapsto> Method (StatementExecution instr (Native ''run'' i5)))
            = patched_modules instr (instrumented me s) (modules s)"
    by (rule ext) (simp add: ks patched_modules_def installed_def m)
  have pa: "(patches s)((dp, ''exec'') \<mapsto> Native ''exec'' i1,
               (dp, ''prepare'') \<mapsto> Native ''prepare'' i2,
               (sp, ''all'') \<mapsto> Native ''all'' i3,
               (sp, ''get'') \<mapsto> Native ''get'' i4,
               (sp, ''run'') \<mapsto> Native ''run'' i5)
            = patched_patches (instrumented me s) (modules s) (patches s)"
    by (rule ext) (simp add: ks patched_patches_def m)
  show ?thesis
    by (simp add: patch_def prototype_of_def wrap_def m p STMT_METHODS_def mo pa)
qed


lemma unpatch_patched:
  assumes "node_sqlite me s0"
    and "modules t = patched_modules instr (instrumented me s0) (modules s0)"
    and "patches t = patched_patches (instrumented me s0) (modules s0) P"
    and "\<forall>k\<in>set (instrumented me s0). P k = None"
  shows "unpatch me t = Inr (t\<lparr>modules := modules s0, patches := P\<rparr>)"
proof -
  from assms(1) obtain c1 c2 dp sp i1 i2 i3 i4 i5 where m:
    "modules s0 (me, ''DatabaseSync'') = Some (Ref c1)" "modules s0 (c1, ''prototype'') = Some (Ref dp)"
    "modules s0 (me, ''StatementSync'') = Some (Ref c2)" "modules s0 (c2, ''prototype'') = Some (Ref sp)"
    "modules s0 (dp, ''exec'') = Some (Method (Native ''exec'' i1))"
    "modules s0 (dp, ''prepare'') = Some (Method (Native ''prepare'' i2))"
    "modules s0 (sp, ''all'') = Some (Method (Native ''all'' i3))"
    "modules s0 (sp, ''get'') = Some (Method (Native ''get'' i4))"
    "modules s0 (sp, ''run'') = Some (Method (Native ''run'' i5))"
    and ks: "instrumented me s0 = [(dp, ''exec''), (dp, ''prepare''), (sp, ''all''), (sp, ''get''), (sp, ''run'')]"
    by (rule node_sqliteD)
  from assms(4) have p: "P (dp, ''exec'') = None" "P (dp, ''prepare'') = None"
    "P (sp, ''all'') = None" "P (sp, ''get'') = None" "P (sp, ''run'') = None"
    by (simp_all add: ks)
  have mo: "(patched_modules instr (instrumented me s0) (modules s0))
              ((dp, ''exec'') \<mapsto> Method (Native ''exec'' i1),
               (dp, ''prepare'') \<mapsto> Method (Native ''prepare'' i2),
               (sp, ''all'') \<mapsto> Method (Native ''all'' i3),
               (sp, ''get'') \<mapsto> Method (Native ''get'' i4),
               (sp, ''run'') \<mapsto> Method (Native ''run'' i5))
            = modules s0"
    by (rule ext) (simp add: ks patched_modules_def m)
  have pa: "(patched_patches (instrumented me s0) (modules s0) P)
              ((dp, ''exec'') := None, (dp, ''prepare'') := None,
               (sp, ''all'') := None, (sp, ''get'') := None, (sp, ''run'') := None)
            = P"
    by (rule ext) (simp add: ks patched_patches_def p)
  have rd: "patched_modules instr (instrumented me s0) (modules s0) (me, ''DatabaseSync'') = Some (Ref c1)"
    "patched_modules instr (instrumented me s0) (modules s0) (me, ''StatementSync'') = Some (Ref c2)"
    "patched_modules instr (instrumented me s0) (modules s0) (c1, ''prototype'') = Some (Ref dp)"
    "patched_modules instr (instrumented me s0) (modules s0) (c2, ''prototype'') = Some (Ref sp)"
    by (simp_all add: ks patched_modules_def m)
  have pp: "patched_patches (instrumented me s0) (modules s0) P (dp, ''exec'') = Some (Native ''exec'' i1)"
    "patched_patches (instrumented me s0) (modules s0) P (dp, ''prepare'') = Some (Native ''prepare'' i2)"
    "patched_patches (instrumented me s0) (modules s0) P (sp, ''all'') = Some (Native ''all'' i3)"
    "patched_patches (instrumented me s0) (modules s0) P (sp, ''get'') = Some (Native ''get'' i4)"
    "patched_patches (instrumented me s0) (modules s0) P (sp, ''run'') = Some (Native ''run'' i5)"
    by (simp_all add: ks patched_patches_def m)
  show ?thesis
    by (simp add: unpatch_def prototype_of_def unwrap_def assms(2,3) rd pp STMT_METHODS_def mo pa)
qed


lemma genericWrap_control:
  assumes "\<And>s. same_control (snd (f self params s)) s"
  shows "same_control (snd (genericWrap env f self params span s)) s"
  using genericWrap_snd[of env f self params span s] assms[of s]
  by (simp add: same_control_def)

lemma same_control_trace: "same_control (s\<lparr>trace := x\<rparr>) s"
  by (simp add: same_control_def)

lemma same_control_trans: "same_control s t \<Longrightarrow> same_control t u \<Longrightarrow> same_control s u"
  by (simp add: same_control_def)

lemma this_sourceSQL_control: "same_control (snd (this_sourceSQL env this s)) s"
  using this_sourceSQL_frame[of env this s] by simp

lemma call_fn_control: "same_control (snd (call_fn env f this params s)) s"
proof (induction f arbitrary: s)
  case (Native nm i)
  show ?case by (simp add: same_control_def native_apply_def split: prod.splits)
next
  case (Exec instr f)
  show ?case
    unfolding exec_as_genericWrap
    by (rule same_control_trans[OF genericWrap_control same_control_trace]) (rule Exec.IH)
next
  case (Prepare instr f)
  show ?case
    unfolding prepare_as_genericWrap
    by (rule same_control_trans[OF genericWrap_control same_control_trace]) (rule Prepare.IH)
next
  case (StatementExecution instr f)
  obtain r s0 where rs: "this_sourceSQL env this s = (r, s0)" by (cases "this_sourceSQL env this s")
  have c0: "same_control s0 s" using this_sourceSQL_control[of env this s] rs by simp
  show ?case
  proof (cases r)
    case (Throw e)
    with rs c0 show ?thesis by (simp add: statementExecution_def)
  next
    case (Return sql)
    have "same_control (snd (call_fn env (StatementExecution instr f) this params s)) s0"
      unfolding statementExecution_as_genericWrap[OF rs[unfolded Return]]
      by (rule same_control_trans[OF genericWrap_control same_control_trace]) (rule StatementExecution.IH)
    then show ?thesis using c0 by (rule same_control_trans)
  qed
qed

lemma invoke_control: "same_control (snd (invoke env proto methodName this params s)) s"
proof (cases "modules s (proto, methodName)")
  case None
  then show ?thesis by (simp add: invoke_def throw_TypeError_def same_control_def)
next
  case (Some m)
  then show ?thesis
    by (cases m) (simp_all add: invoke_def call_fn_control, simp_all add: throw_TypeError_def same_control_def)
qed

lemma is_native_modules: "modules s = modules t \<Longrightarrow> is_native s = is_native t"
  by (intro ext) (simp add: is_native_def)

lemma node_sqlite_modules:
  "modules s = modules t \<Longrightarrow> node_sqlite me s = node_sqlite me t"
  "modules s = modules t \<Longrightarrow> instrumented me s = instrumented me t"
  by (simp_all only: node_sqlite_def instrumented_def prototype_of_def is_native_modules[of s t])

lemma consistent_patch:
  assumes ns: "node_sqlite me s0" and "modules s = modules s0" and "patches s = Map.empty"
  shows "patch instr me s =
           Inr (me, s\<lparr>modules := patched_modules instr (instrumented me s0) (modules s0),
                      patches := patched_patches (instrumented me s0) (modules s0) Map.empty\<rparr>)"
proof -
  have "node_sqlite me s" using ns assms(2) node_sqlite_modules(1)[of s s0 me] by simp
  moreover have "instrumented me s = instrumented me s0"
    using assms(2) by (rule node_sqlite_modules(2))
  ultimately show ?thesis
    using patch_patched[of me s instr] assms(2,3) by simp
qed

lemma consistent_unpatch:
  assumes ns: "node_sqlite me s0"
    and "modules s = patched_modules instr (instrumented me s0) (modules s0)"
    and "patches s = patched_patches (instrumented me s0) (modules s0) Map.empty"
  shows "unpatch me s = Inr (s\<lparr>modules := modules s0, patches := Map.empty\<rparr>)"
  using unpatch_patched[OF ns assms(2,3)] by simp

lemma reachable_consistent:
  assumes "initial me s0" and "reachable env instr me s0 s"
  shows "consistent instr me s0 s"
  using assms(2)
proof (induction rule: reachable.induct)
  case reach_start
  then show ?case using assms(1) by (simp add: consistent_def initial_def)
next
  case (reach_enable s s')
  have ns: "node_sqlite me s0" using assms(1) by (simp add: initial_def)
  show ?case
  proof (cases "enabled s \<or> loaded s = None")
    case True
    with reach_enable.hyps(2) have "s' = s \<or> (loaded s = None \<and> \<not> enabled s \<and> s' = s\<lparr>enabled := True\<rparr>)"
      by (auto simp: enable_def split: if_splits)
    with reach_enable.IH show ?thesis by (auto simp: consistent_def)
  next
    case False
    with reach_enable.IH have l: "loaded s = Some me" "modules s = modules s0" "patches s = Map.empty"
      by (auto simp: consistent_def)
    from reach_enable.hyps(2) False l have "s' = s\<lparr>modules := patched_modules instr (instrumented me s0) (modules s0),
                      patches := patched_patches (instrumented me s0) (modules s0) Map.empty,
                      enabled := True\<rparr>"
      by (simp add: enable_def consistent_patch[OF ns l(2,3)])
    with l(1) show ?thesis by (simp add: consistent_def)
  qed
next
  case (reach_disable s s')
  have ns: "node_sqlite me s0" using assms(1) by (simp add: initial_def)
  show ?case
  proof (cases "\<not> enabled s \<or> loaded s = None")
    case True
    with reach_disable.hyps(2) have "s' = s \<or> (loaded s = None \<and> enabled s \<and> s' = s\<lparr>enabled := False\<rparr>)"
      by (auto simp: disable_def split: if_splits)
    with reach_disable.IH show ?thesis by (auto simp: consistent_def)
  next
    case False
    with reach_disable.IH have l: "loaded s = Some me"
      "modules s = patched_modules instr (instrumented me s0) (modules s0)"
      "patches s = patched_patches (instrumented me s0) (modules s0) Map.empty"
      by (auto simp: consistent_def)
    from reach_disable.hyps(2) False l(1) have "s' = s\<lparr>modules := modules s0, patches := Map.empty, enabled := False\<rparr>"
      by (simp add: disable_def consistent_unpatch[OF ns l(2,3)])
    then show ?thesis using l(1) by (simp add: consistent_def)
  qed
next
  case (reach_require s s')
  have ns: "node_sqlite me s0" using assms(1) by (simp add: initial_def)
  show ?case
  proof (cases "loaded s")
    case (Some a)
    with reach_require show ?thesis by (simp add: onRequire_def)
  next
    case None
    with reach_require.IH have l: "modules s = modules s0" "patches s = Map.empty"
      by (auto simp: consistent_def)
    show ?thesis
    proof (cases "enabled s")
      case True
      with reach_require.hyps(2) None have "s' = s\<lparr>modules := patched_modules instr (instrumented me s0) (modules s0),
                      patches := patched_patches (instrumented me s0) (modules s0) Map.empty,
                      loaded := Some me\<rparr>"
        by (simp add: onRequire_def consistent_patch[OF ns l])
      with True show ?thesis by (simp add: consistent_def)
    next
      case False
      with reach_require.hyps(2) None have "s' = s\<lparr>loaded := Some me\<rparr>"
        by (simp add: onRequire_def)
      with False l show ?thesis by (simp add: consistent_def)
    qed
  qed
next
  case (reach_call s proto methodName this params r s')
  have "same_control s' s"
    using invoke_control[of env proto methodName this params s] reach_call.hyps(2) by simp
  with reach_call.IH show ?case by (simp add: consistent_def same_control_def)
qed

section \<open>The fixture\<close>

lemma fresh_node_sqlite: "node_sqlite 0 fresh"
  by (simp add: node_sqlite_def prototype_of_def is_native_def fresh_def sqlite_module_def STMT_METHODS_def)

lemma fresh_instrumented:
  "instrumented 0 fresh = [(3, ''exec''), (3, ''prepare''), (4, ''all''), (4, ''get''), (4, ''run'')]"
  by (simp add: instrumented_def prototype_of_def fresh_def sqlite_module_def STMT_METHODS_def)

lemma fresh_initial: "initial 0 fresh"
  using fresh_node_sqlite by (simp add: initial_def) (simp add: fresh_def)

lemma required_node_sqlite: "node_sqlite 0 required"
  using fresh_node_sqlite node_sqlite_modules(1)[of required fresh 0] by (simp add: required_def)

lemma required_instrumented: "instrumented 0 required = instrumented 0 fresh"
  by (rule node_sqlite_modules(2)) (simp add: required_def)

lemma fresh_required: "onRequire the_instr 0 fresh = Inr required"
  by (simp add: onRequire_def required_def) (simp add: fresh_def)

lemma required_patched: "enable the_instr required = Inr patched"
proof -
  have "patch the_instr 0 required =
      Inr (0, required\<lparr>modules := patched_modules the_instr (instrumented 0 fresh) (modules fresh),
                      patches := patched_patches (instrumented 0 fresh) (modules fresh) Map.empty\<rparr>)"
    by (rule consistent_patch[OF fresh_node_sqlite]) (simp_all add: required_def, simp add: fresh_def)
  then show ?thesis
    by (simp add: enable_def) (simp add: required_def patched_def fresh_def)
qed

lemma reachable_required: "reachable test_env the_instr 0 fresh required"
  using reach_require[OF reach_start fresh_required] .

lemma reachable_patched: "reachable test_env the_instr 0 fresh patched"
  using reach_enable[OF reachable_required required_patched] .

lemma patched_required: "disable the_instr patched = Inr required"
proof -
  have "unpatch 0 patched = Inr (patched\<lparr>modules := modules fresh, patches := Map.empty\<rparr>)"
    by (rule consistent_unpatch[OF fresh_node_sqlite]) (simp_all add: patched_def)
  then show ?thesis
    by (simp add: disable_def) (simp add: required_def patched_def fresh_def)
qed

lemma reachable_disabled: "reachable test_env the_instr 0 fresh required"
  using reach_disable[OF reachable_patched patched_required] .

lemma patched_prepare: "modules patched (3, ''prepare'') = Some (Method (Prepare the_instr (Native ''prepare'' 1)))"
  by (simp add: patched_def fresh_instrumented patched_modules_def installed_def)
     (simp add: fresh_def sqlite_module_def installed_def)

lemma patched_prepared:
  "invoke test_env 3 ''prepare'' (JObj 0) [JStr ''INSERT INTO test (id) VALUES (?)''] patched
     = (Return (JObj 1), prepared)"
proof -
  have "objects patched = [Map.empty]" "db patched = 0" "trace patched = []"
    by (simp_all add: patched_def fresh_def)
  then show ?thesis
    by (simp add: invoke_def patched_prepare prepare_def startSpan_def genericWrap_def native_apply_def
        setStatus_def span_end_def prepared_def test_env_def sqlite_natives_def first_param_def)
qed

lemma reachable_prepared: "reachable test_env the_instr 0 fresh prepared"
  using reach_call[OF reachable_patched patched_prepared] .

lemma native_member:
  assumes "node_sqlite me s" and "k \<in> set (instrumented me s)"
  shows "\<exists>i. modules s k = Some (Method (Native (snd k) i))"
proof -
  from assms(1) obtain dp sp i1 i2 i3 i4 i5 where m:
    "modules s (dp, ''exec'') = Some (Method (Native ''exec'' i1))"
    "modules s (dp, ''prepare'') = Some (Method (Native ''prepare'' i2))"
    "modules s (sp, ''all'') = Some (Method (Native ''all'' i3))"
    "modules s (sp, ''get'') = Some (Method (Native ''get'' i4))"
    "modules s (sp, ''run'') = Some (Method (Native ''run'' i5))"
    and ks: "instrumented me s = [(dp, ''exec''), (dp, ''prepare''), (sp, ''all''), (sp, ''get''), (sp, ''run'')]"
    by (rule node_sqliteD)
  from assms(2) show ?thesis unfolding ks using m by auto
qed

lemma invoke_native:
  assumes "modules s k = Some (Method (Native nm i))"
  shows "invoke env (fst k) (snd k) this params s = native_apply env i this params s"
    and "trace (snd (invoke env (fst k) (snd k) this params s)) = trace s @ [NativeCall i this params]"
  using assms by (simp_all add: invoke_def native_apply_def split: prod.splits)


section \<open>Properties of patching, unpatching and the controller\<close>

text \<open>
  C6. On a module as \<^verbatim>\<open>node:sqlite\<close> exports it, none of whose five methods is patched,
  the patch callback wraps each of the five, and the unpatch callback run after it gives
  back the very state it started from: every prototype member is the implementation it
  was before. A call of any of the five then runs the native method and records its
  invocation and nothing else, so no span is created. The same holds for \<^verbatim>\<open>enable\<close>
  followed by \<^verbatim>\<open>disable\<close> on the loaded module.
\<close>

theorem wrap_unwrap_round_trip:
  assumes "node_sqlite moduleExports s"
    and "\<forall>k\<in>set (instrumented moduleExports s). patches s k = None"
  shows "\<exists>s1 s2. patch instr moduleExports s = Inr (moduleExports, s1)
           \<and> (\<forall>k\<in>set (instrumented moduleExports s).
                 \<exists>f. modules s k = Some (Method f) \<and>
                     modules s1 k = Some (Method (installed instr (snd k) f)))
           \<and> unpatch moduleExports s1 = Inr s2
           \<and> s2 = s
           \<and> (\<forall>k\<in>set (instrumented moduleExports s).
                 modules s2 k = modules s k \<and>
                 (\<exists>i. invoke env (fst k) (snd k) this params s2 = native_apply env i this params s \<and>
                      trace (snd (invoke env (fst k) (snd k) this params s2))
                        = trace s @ [NativeCall i this params]))
           \<and> (\<not> enabled s \<and> loaded s = Some moduleExports \<longrightarrow>
                 (\<exists>s3. enable instr s = Inr s3 \<and> enabled s3 \<and> disable instr s3 = Inr s))"
proof -
  let ?ks = "instrumented moduleExports s"
  let ?s1 = "s\<lparr>modules := patched_modules instr ?ks (modules s),
               patches := patched_patches ?ks (modules s) (patches s)\<rparr>"
  have p: "patch instr moduleExports s = Inr (moduleExports, ?s1)"
    using assms by (rule patch_patched)
  have u: "unpatch moduleExports ?s1 = Inr s"
    using unpatch_patched[OF assms(1), of ?s1 instr "patches s"] assms(2) by simp
  have w: "\<forall>k\<in>set ?ks. \<exists>f. modules s k = Some (Method f) \<and>
                     modules ?s1 k = Some (Method (installed instr (snd k) f))"
  proof
    fix k assume k: "k \<in> set ?ks"
    from native_member[OF assms(1) k] obtain i where "modules s k = Some (Method (Native (snd k) i))" ..
    with k show "\<exists>f. modules s k = Some (Method f) \<and>
                     modules ?s1 k = Some (Method (installed instr (snd k) f))"
      by (simp add: patched_modules_def)
  qed
  have c: "\<forall>k\<in>set ?ks. modules s k = modules s k \<and>
                 (\<exists>i. invoke env (fst k) (snd k) this params s = native_apply env i this params s \<and>
                      trace (snd (invoke env (fst k) (snd k) this params s))
                        = trace s @ [NativeCall i this params])"
  proof
    fix k assume k: "k \<in> set ?ks"
    from native_member[OF assms(1) k] obtain i where "modules s k = Some (Method (Native (snd k) i))" ..
    from invoke_native[OF this] show "modules s k = modules s k \<and>
                 (\<exists>i. invoke env (fst k) (snd k) this params s = native_apply env i this params s \<and>
                      trace (snd (invoke env (fst k) (snd k) this params s))
                        = trace s @ [NativeCall i this params])"
      by blast
  qed
  have e: "\<not> enabled s \<and> loaded s = Some moduleExports \<longrightarrow>
                 (\<exists>s3. enable instr s = Inr s3 \<and> enabled s3 \<and> disable instr s3 = Inr s)"
  proof
    assume a: "\<not> enabled s \<and> loaded s = Some moduleExports"
    then have en: "enable instr s = Inr (?s1\<lparr>enabled := True\<rparr>)"
      by (simp add: enable_def p)
    have "unpatch moduleExports (?s1\<lparr>enabled := True\<rparr>) = Inr (s\<lparr>enabled := True\<rparr>)"
      using unpatch_patched[OF assms(1), of "?s1\<lparr>enabled := True\<rparr>" instr "patches s"] assms(2) by simp
    with a have "disable instr (?s1\<lparr>enabled := True\<rparr>) = Inr s"
      by (simp add: disable_def)
    with en show "\<exists>s3. enable instr s = Inr s3 \<and> enabled s3 \<and> disable instr s3 = Inr s"
      by simp
  qed
  show ?thesis using p u w c e by blast
qed


theorem wrap_unwrap_round_trip_witness:
  "node_sqlite 0 required
   \<and> patches required = Map.empty
   \<and> \<not> enabled required \<and> loaded required = Some 0
   \<and> (\<exists>s1. patch the_instr 0 required = Inr (0, s1)
          \<and> modules s1 (3, ''exec'') = Some (Method (Exec the_instr (Native ''exec'' 0)))
          \<and> unpatch 0 s1 = Inr required)
   \<and> (\<exists>s3. enable the_instr required = Inr s3 \<and> enabled s3 \<and> disable the_instr s3 = Inr required)
   \<and> trace (snd (invoke test_env 3 ''exec'' (JObj 0) [JStr ''CREATE TABLE test (id NUMBER)''] required))
       = [NativeCall 0 (JObj 0) [JStr ''CREATE TABLE test (id NUMBER)'']]"
proof -
  have a: "\<forall>k\<in>set (instrumented 0 required). patches required k = None"
    by (simp add: required_def fresh_def)
  have b: "\<not> enabled required \<and> loaded required = Some 0"
    by (simp add: required_def fresh_def)
  have c: "(3, ''exec'') \<in> set (instrumented 0 required)"
    by (simp add: required_instrumented fresh_instrumented)
  have d: "modules required (3, ''exec'') = Some (Method (Native ''exec'' 0))" "trace required = []"
    by (simp_all add: required_def fresh_def sqlite_module_def)
  from wrap_unwrap_round_trip[OF required_node_sqlite a, of the_instr test_env "JObj 0"
        "[JStr ''CREATE TABLE test (id NUMBER)'']"]
  obtain s1 s2 where r: "patch the_instr 0 required = Inr (0, s1)"
    "\<forall>k\<in>set (instrumented 0 required).
        \<exists>f. modules required k = Some (Method f) \<and> modules s1 k = Some (Method (installed the_instr (snd k) f))"
    "unpatch 0 s1 = Inr s2" "s2 = required"
    "\<forall>k\<in>set (instrumented 0 required). modules s2 k = modules required k \<and>
       (\<exists>i. invoke test_env (fst k) (snd k) (JObj 0) [JStr ''CREATE TABLE test (id NUMBER)''] s2
              = native_apply test_env i (JObj 0) [JStr ''CREATE TABLE test (id NUMBER)''] required \<and>
            trace (snd (invoke test_env (fst k) (snd k) (JObj 0) [JStr ''CREATE TABLE test (id NUMBER)''] s2))
              = trace required @ [NativeCall i (JObj 0) [JStr ''CREATE TABLE test (id NUMBER)'']])"
    "\<not> enabled required \<and> loaded required = Some 0 \<longrightarrow>
       (\<exists>s3. enable the_instr required = Inr s3 \<and> enabled s3 \<and> disable the_instr s3 = Inr required)"
    by blast
  from r(2) c d(1) have m1: "modules s1 (3, ''exec'') = Some (Method (Exec the_instr (Native ''exec'' 0)))"
    by (fastforce simp: installed_def)
  have tr: "trace (snd (invoke test_env 3 ''exec'' (JObj 0) [JStr ''CREATE TABLE test (id NUMBER)''] required))
       = [NativeCall 0 (JObj 0) [JStr ''CREATE TABLE test (id NUMBER)'']]"
    using d by (simp add: invoke_def native_apply_def split: prod.splits)
  have p1: "\<exists>s1. patch the_instr 0 required = Inr (0, s1)
          \<and> modules s1 (3, ''exec'') = Some (Method (Exec the_instr (Native ''exec'' 0)))
          \<and> unpatch 0 s1 = Inr required"
    using r(1,3,4) m1 by blast
  have p2: "\<exists>s3. enable the_instr required = Inr s3 \<and> enabled s3 \<and> disable the_instr s3 = Inr required"
    using r(6) b by blast
  have a': "patches required = Map.empty"
    by (simp add: required_def fresh_def)
  show ?thesis
    by (intro conjI required_node_sqlite a' p1 p2 tr) (simp_all add: b)
qed


text \<open>
  C7. In every state reachable from an initial one the patch record invariant holds:
  every entry of the patch record belongs to one of the five members, remembers its
  native original and the member is that original wrapped once. No \<^verbatim>\<open>enable\<close>,
  \<^verbatim>\<open>disable\<close> or module load fails there, so no method is wrapped while it is wrapped
  already. Unwrapping a method that is not in the patch record changes nothing and raises
  nothing. Enabling twice gives the state of enabling once, and so does disabling, hence
  every later call does the same in both.
\<close>

theorem patch_record_invariant:
  assumes "initial moduleExports s0" and "reachable env instr moduleExports s0 s"
  shows "consistent instr moduleExports s0 s
         \<and> (\<forall>k f. patches s k = Some f \<longrightarrow>
               k \<in> set (instrumented moduleExports s0) \<and> (\<exists>i. f = Native (snd k) i) \<and>
               modules s0 k = Some (Method f) \<and>
               modules s k = Some (Method (installed instr (snd k) f)))
         \<and> (\<exists>s'. enable instr s = Inr s') \<and> (\<exists>s'. disable instr s = Inr s')
         \<and> (\<exists>s'. onRequire instr moduleExports s = Inr s')
         \<and> (\<forall>target methodName. patches s (target, methodName) = None \<longrightarrow>
               unwrap target methodName s = s)
         \<and> (\<forall>s1. enable instr s = Inr s1 \<longrightarrow> enable instr s1 = Inr s1)
         \<and> (\<forall>s1. disable instr s = Inr s1 \<longrightarrow> disable instr s1 = Inr s1)"
proof -
  have ns: "node_sqlite moduleExports s0" using assms(1) by (simp add: initial_def)
  have c: "consistent instr moduleExports s0 s"
    using assms by (rule reachable_consistent)
  have rec: "\<forall>k f. patches s k = Some f \<longrightarrow>
               k \<in> set (instrumented moduleExports s0) \<and> (\<exists>i. f = Native (snd k) i) \<and>
               modules s0 k = Some (Method f) \<and>
               modules s k = Some (Method (installed instr (snd k) f))"
  proof (intro allI impI)
    fix k f assume pk: "patches s k = Some f"
    with c have en: "enabled s \<and> loaded s = Some moduleExports"
      by (auto simp: consistent_def split: if_splits)
    with c have ms: "modules s = patched_modules instr (instrumented moduleExports s0) (modules s0)"
      and ps: "patches s = patched_patches (instrumented moduleExports s0) (modules s0) Map.empty"
      by (simp_all add: consistent_def)
    from pk ps have k: "k \<in> set (instrumented moduleExports s0)"
      by (auto simp: patched_patches_def split: if_splits)
    from native_member[OF ns k] obtain i where m: "modules s0 k = Some (Method (Native (snd k) i))" ..
    with pk ps k have "f = Native (snd k) i" by (simp add: patched_patches_def)
    with m k ms show "k \<in> set (instrumented moduleExports s0) \<and> (\<exists>i. f = Native (snd k) i) \<and>
               modules s0 k = Some (Method f) \<and>
               modules s k = Some (Method (installed instr (snd k) f))"
      by (simp add: patched_modules_def)
  qed
  have en: "\<exists>s'. enable instr s = Inr s'"
  proof (cases "enabled s \<or> loaded s = None")
    case True
    then show ?thesis by (auto simp: enable_def)
  next
    case False
    with c have "loaded s = Some moduleExports" "modules s = modules s0" "patches s = Map.empty"
      by (auto simp: consistent_def)
    with False show ?thesis by (simp add: enable_def consistent_patch[OF ns])
  qed
  have di: "\<exists>s'. disable instr s = Inr s'"
  proof (cases "\<not> enabled s \<or> loaded s = None")
    case True
    then show ?thesis by (auto simp: disable_def)
  next
    case False
    with c have "loaded s = Some moduleExports"
      "modules s = patched_modules instr (instrumented moduleExports s0) (modules s0)"
      "patches s = patched_patches (instrumented moduleExports s0) (modules s0) Map.empty"
      by (auto simp: consistent_def)
    with False show ?thesis by (simp add: disable_def consistent_unpatch[OF ns])
  qed
  have re: "\<exists>s'. onRequire instr moduleExports s = Inr s'"
  proof (cases "loaded s")
    case (Some a)
    then show ?thesis by (simp add: onRequire_def)
  next
    case None
    with c have "modules s = modules s0" "patches s = Map.empty"
      by (auto simp: consistent_def)
    with None show ?thesis by (simp add: onRequire_def consistent_patch[OF ns])
  qed
  have un: "\<forall>target methodName. patches s (target, methodName) = None \<longrightarrow>
               unwrap target methodName s = s"
    by (simp add: unwrap_def)
  have e2: "\<forall>s1. enable instr s = Inr s1 \<longrightarrow> enable instr s1 = Inr s1"
    by (auto simp: enable_def split: if_splits option.splits sum.splits)
  have d2: "\<forall>s1. disable instr s = Inr s1 \<longrightarrow> disable instr s1 = Inr s1"
    by (auto simp: disable_def split: if_splits option.splits sum.splits)
  show ?thesis
    by (intro conjI c rec en di re un e2 d2)
qed


theorem patch_record_invariant_witness:
  "initial 0 fresh \<and> reachable test_env the_instr 0 fresh patched
   \<and> patches patched (3, ''exec'') = Some (Native ''exec'' 0)
   \<and> modules patched (3, ''exec'') = Some (Method (Exec the_instr (Native ''exec'' 0)))
   \<and> modules fresh (3, ''exec'') = Some (Method (Native ''exec'' 0))
   \<and> enable the_instr patched = Inr patched
   \<and> (\<exists>s'. disable the_instr patched = Inr s' \<and> disable the_instr s' = Inr s')"
proof -
  have p: "patches patched (3, ''exec'') = Some (Native ''exec'' 0)"
    by (simp add: patched_def fresh_instrumented patched_patches_def) (simp add: fresh_def sqlite_module_def)
  have e: "enable the_instr patched = Inr patched"
    by (simp add: enable_def patched_def)
  from patch_record_invariant[OF fresh_initial reachable_patched]
  have r: "\<forall>k f. patches patched k = Some f \<longrightarrow>
               k \<in> set (instrumented 0 fresh) \<and> (\<exists>i. f = Native (snd k) i) \<and>
               modules fresh k = Some (Method f) \<and>
               modules patched k = Some (Method (installed the_instr (snd k) f))"
    and d: "\<exists>s'. disable the_instr patched = Inr s'"
    and d2: "\<forall>s1. disable the_instr patched = Inr s1 \<longrightarrow> disable the_instr s1 = Inr s1"
    by blast+
  from r p have m: "modules fresh (3, ''exec'') = Some (Method (Native ''exec'' 0))"
    "modules patched (3, ''exec'') = Some (Method (installed the_instr ''exec'' (Native ''exec'' 0)))"
    by fastforce+
  from d d2 have dd: "\<exists>s'. disable the_instr patched = Inr s' \<and> disable the_instr s' = Inr s'"
    by blast
  show ?thesis
    using m(2) by (intro conjI fresh_initial reachable_patched p m(1) e dd) (simp add: installed_def)
qed

lemma wrap_frame:
  assumes "wrap target methodName factory s = Inr s'"
  shows "(\<forall>k. k \<noteq> (target, methodName) \<longrightarrow> modules s' k = modules s k)"
    and "objects s' = objects s" and "db s' = db s" and "trace s' = trace s"
    and "enabled s' = enabled s" and "loaded s' = loaded s"
  using assms by (auto simp: wrap_def split: option.splits member.splits)

lemma massWrap_frame:
  assumes "massWrap target methodNames factory s = Inr s'"
  shows "(\<forall>k. k \<notin> Pair target ` set methodNames \<longrightarrow> modules s' k = modules s k)
         \<and> objects s' = objects s \<and> db s' = db s \<and> trace s' = trace s
         \<and> enabled s' = enabled s \<and> loaded s' = loaded s"
  using assms
proof (induction methodNames arbitrary: s)
  case Nil
  then show ?case by simp
next
  case (Cons n ns)
  from Cons.prems obtain s1 where w: "wrap target n factory s = Inr s1"
    and r: "massWrap target ns factory s1 = Inr s'"
    by (auto split: sum.splits)
  from Cons.IH[OF r] wrap_frame[OF w] show ?case by auto
qed

lemma prototype_of_frame:
  assumes "\<forall>c. modules s' (c, ''prototype'') = modules s (c, ''prototype'')"
  shows "prototype_of s' cls = prototype_of s cls"
  using assms by (simp add: prototype_of_def split: option.splits member.splits)


text \<open>
  C10. When the patch callback succeeds it returns the module exports reference it was
  given, and the state differs from the one before only in the five members \<^verbatim>\<open>exec\<close>
  and \<^verbatim>\<open>prepare\<close> of the connection prototype and \<^verbatim>\<open>all\<close>, \<^verbatim>\<open>get\<close>, \<^verbatim>\<open>run\<close> of
  the statement prototype (and in the patch record): every other property of every
  module object, the heap, the engine and the trace are unchanged.
\<close>

theorem patch_returns_exports:
  assumes "patch instr moduleExports s = Inr (r, s')"
  shows "r = moduleExports
         \<and> (\<exists>dp sp. prototype_of s (modules s (moduleExports, ''DatabaseSync'')) = Inr dp
               \<and> prototype_of s (modules s (moduleExports, ''StatementSync'')) = Inr sp
               \<and> (\<forall>k. k \<notin> {(dp, ''exec''), (dp, ''prepare''), (sp, ''all''), (sp, ''get''), (sp, ''run'')}
                      \<longrightarrow> modules s' k = modules s k))
         \<and> objects s' = objects s \<and> db s' = db s \<and> trace s' = trace s
         \<and> enabled s' = enabled s \<and> loaded s' = loaded s"
proof -
  let ?D = "modules s (moduleExports, ''DatabaseSync'')"
  let ?S = "modules s (moduleExports, ''StatementSync'')"
  obtain p1 where a1: "prototype_of s ?D = Inr p1"
    using assms by (cases "prototype_of s ?D") (simp_all add: patch_def)
  obtain s1 where a2: "wrap p1 ''exec'' (\<lambda>original. Exec instr original) s = Inr s1"
    using assms a1 by (cases "wrap p1 ''exec'' (\<lambda>original. Exec instr original) s") (simp_all add: patch_def)
  obtain p2 where a3: "prototype_of s1 ?D = Inr p2"
    using assms a1 a2 by (cases "prototype_of s1 ?D") (simp_all add: patch_def)
  obtain s2 where a4: "wrap p2 ''prepare'' (\<lambda>original. Prepare instr original) s1 = Inr s2"
    using assms a1 a2 a3
    by (cases "wrap p2 ''prepare'' (\<lambda>original. Prepare instr original) s1") (simp_all add: patch_def)
  obtain p3 where a5: "prototype_of s2 ?S = Inr p3"
    using assms a1 a2 a3 a4 by (cases "prototype_of s2 ?S") (simp_all add: patch_def)
  obtain s3 where a6: "massWrap p3 STMT_METHODS (\<lambda>original. StatementExecution instr original) s2 = Inr s3"
    using assms a1 a2 a3 a4 a5
    by (cases "massWrap p3 STMT_METHODS (\<lambda>original. StatementExecution instr original) s2")
       (simp_all add: patch_def)
  have a78: "r = moduleExports" "s' = s3"
    using assms a1 a2 a3 a4 a5 a6 by (simp_all add: patch_def)
  note a = a1 a2 a3 a4 a5 a6 a78
  note f1 = wrap_frame[OF a(2)]
  note f2 = wrap_frame[OF a(4)]
  note f3 = massWrap_frame[OF a(6)]
  have "prototype_of s1 ?D = prototype_of s ?D"
    by (rule prototype_of_frame) (simp add: f1(1))
  with a(1,3) have p2: "p2 = p1" by simp
  have "prototype_of s2 ?S = prototype_of s ?S"
    by (rule prototype_of_frame) (simp add: f1(1) f2(1))
  with a(5) have p3: "prototype_of s ?S = Inr p3" by simp
  have fr: "\<forall>k. k \<notin> {(p1, ''exec''), (p1, ''prepare''), (p3, ''all''), (p3, ''get''), (p3, ''run'')}
                      \<longrightarrow> modules s' k = modules s k"
    using f1(1) f2(1) f3 by (simp add: a(8) p2 STMT_METHODS_def)
  have rest: "objects s' = objects s \<and> db s' = db s \<and> trace s' = trace s
         \<and> enabled s' = enabled s \<and> loaded s' = loaded s"
    using f1(2-) f2(2-) f3 by (simp add: a(8))
  show ?thesis
    using a(1,7) p3 fr rest by blast
qed

theorem patch_returns_exports_witness:
  "patch the_instr 0 required = Inr (0, patched\<lparr>enabled := False\<rparr>)
   \<and> modules (patched\<lparr>enabled := False\<rparr>) (3, ''close'') = Some (Method (Native ''close'' 5))
   \<and> modules (patched\<lparr>enabled := False\<rparr>) (0, ''DatabaseSync'') = Some (Ref 1)"
proof -
  have h: "patch the_instr 0 required = Inr (0, patched\<lparr>enabled := False\<rparr>)"
    using consistent_patch[OF fresh_node_sqlite, of required the_instr]
    by (simp add: required_def patched_def) (simp add: fresh_def)
  have m: "modules required (3, ''close'') = Some (Method (Native ''close'' 5))"
    "modules required (0, ''DatabaseSync'') = Some (Ref 1)"
    "prototype_of required (modules required (0, ''DatabaseSync'')) = Inr 3"
    "prototype_of required (modules required (0, ''StatementSync'')) = Inr 4"
    by (simp_all add: required_def fresh_def sqlite_module_def prototype_of_def)
  from patch_returns_exports[OF h] m(3,4)
  have "\<forall>k. k \<notin> {(3, ''exec''), (3, ''prepare''), (4, ''all''), (4, ''get''), (4, ''run'')}
            \<longrightarrow> modules (patched\<lparr>enabled := False\<rparr>) k = modules required k"
    by auto
  then have "modules (patched\<lparr>enabled := False\<rparr>) (3, ''close'') = modules required (3, ''close'')"
    "modules (patched\<lparr>enabled := False\<rparr>) (0, ''DatabaseSync'') = modules required (0, ''DatabaseSync'')"
    by simp_all
  with h m(1,2) show ?thesis by simp
qed

text \<open>
  C8. In every reachable state in which the instrumentation is disabled the module
  objects are those of the untouched module. A call of any of the five methods is the
  call of its native implementation: it adds the record of that invocation to the trace
  and no span, whether it returns or throws, and its outcome and its effect on the engine
  are those of the untouched module in the same engine state.
\<close>

theorem disabled_records_no_span:
  assumes "initial moduleExports s0" and "reachable env instr moduleExports s0 s"
    and "\<not> enabled s" and "k \<in> set (instrumented moduleExports s0)"
  shows "modules s = modules s0
         \<and> (\<exists>i. modules s0 k = Some (Method (Native (snd k) i)) \<and>
                invoke env (fst k) (snd k) this params s = native_apply env i this params s \<and>
                trace (snd (invoke env (fst k) (snd k) this params s)) = trace s @ [NativeCall i this params])
         \<and> filter is_startSpan (trace (snd (invoke env (fst k) (snd k) this params s)))
             = filter is_startSpan (trace s)
         \<and> fst (invoke env (fst k) (snd k) this params s)
             = fst (invoke env (fst k) (snd k) this params (s0\<lparr>objects := objects s, db := db s\<rparr>))
         \<and> same_engine (snd (invoke env (fst k) (snd k) this params s))
              (snd (invoke env (fst k) (snd k) this params (s0\<lparr>objects := objects s, db := db s\<rparr>)))"
proof -
  have ns: "node_sqlite moduleExports s0" using assms(1) by (simp add: initial_def)
  have "consistent instr moduleExports s0 s"
    using assms(1,2) by (rule reachable_consistent)
  with assms(3) have m: "modules s = modules s0" by (simp add: consistent_def)
  from native_member[OF ns assms(4)] obtain i where i0: "modules s0 k = Some (Method (Native (snd k) i))" ..
  with m have ims: "modules s k = Some (Method (Native (snd k) i))" by simp
  note a = invoke_native[OF ims, of env this params]
  let ?u = "s0\<lparr>objects := objects s, db := db s\<rparr>"
  have iu: "modules ?u k = Some (Method (Native (snd k) i))" using i0 by simp
  note b = invoke_native[OF iu, of env this params]
  have c: "fst (native_apply env i this params s) = fst (native_apply env i this params ?u)"
    "same_engine (snd (native_apply env i this params s)) (snd (native_apply env i this params ?u))"
    by (simp_all add: native_apply_def same_engine_def split: prod.splits)
  have 2: "\<exists>i. modules s0 k = Some (Method (Native (snd k) i)) \<and>
                invoke env (fst k) (snd k) this params s = native_apply env i this params s \<and>
                trace (snd (invoke env (fst k) (snd k) this params s)) = trace s @ [NativeCall i this params]"
    using i0 a by blast
  have 3: "filter is_startSpan (trace (snd (invoke env (fst k) (snd k) this params s)))
             = filter is_startSpan (trace s)"
    by (simp add: a(2))
  show ?thesis
    using c by (intro conjI m 2 3) (simp_all add: a(1) b(1))
qed

theorem disabled_records_no_span_witness:
  "initial 0 fresh \<and> enable the_instr required = Inr patched \<and> disable the_instr patched = Inr required
   \<and> reachable test_env the_instr 0 fresh required \<and> \<not> enabled required
   \<and> (3, ''prepare'') \<in> set (instrumented 0 fresh)
   \<and> invoke test_env 3 ''prepare'' (JObj 0) [JStr ''invalid-sql''] required
       = (Throw (JObj 1),
          required\<lparr>objects := [Map.empty, [''message'' \<mapsto> Field (JStr ''syntax error'')]],
                   trace := [NativeCall 1 (JObj 0) [JStr ''invalid-sql'']]\<rparr>)"
proof -
  have a: "\<not> enabled required" by (simp add: required_def fresh_def)
  have b: "(3, ''prepare'') \<in> set (instrumented 0 fresh)" by (simp add: fresh_instrumented)
  have m: "modules fresh (3, ''prepare'') = Some (Method (Native ''prepare'' 1))"
    by (simp add: fresh_def sqlite_module_def)
  from disabled_records_no_span[OF fresh_initial reachable_disabled a b, of "JObj 0" "[JStr ''invalid-sql'']"] m
  have "invoke test_env 3 ''prepare'' (JObj 0) [JStr ''invalid-sql''] required
          = native_apply test_env 1 (JObj 0) [JStr ''invalid-sql''] required"
    by auto
  also have "\<dots> = (Throw (JObj 1),
          required\<lparr>objects := [Map.empty, [''message'' \<mapsto> Field (JStr ''syntax error'')]],
                   trace := [NativeCall 1 (JObj 0) [JStr ''invalid-sql'']]\<rparr>)"
    by (simp add: native_apply_def test_env_def sqlite_natives_def first_param_def required_def fresh_def)
  finally show ?thesis
    by (intro conjI fresh_initial required_patched patched_required reachable_disabled a b)
qed

section \<open>The spans of the enabled instrumentation\<close>

lemma genericWrap_native_trace:
  "\<exists>fin. trace (snd (genericWrap env (call_fn env (Native nm i)) this params span s))
           = trace s @ NativeCall i this params # fin
         \<and> (fin = [End span] \<or> (\<exists>st. fin = [SetStatus span st, End span]))"
proof -
  have c: "trace (snd (call_fn env (Native nm i) this params s)) = trace s @ [NativeCall i this params]"
    by (simp add: native_apply_def split: prod.splits)
  from genericWrap_snd[of env "call_fn env (Native nm i)" this params span s, THEN conjunct2, unfolded c]
  show ?thesis by auto
qed

lemma exec_native_trace:
  "\<exists>fin. trace (snd (call_fn env (Exec instr (Native nm i)) this params s))
          = trace s @ StartSpan (length (trace s)) (tracer instr) nm
                         \<lparr>kind = CLIENT,
                          attributes = [ATTR_DB_SYSTEM env \<mapsto> JStr (DB_SYSTEM_VALUE_SQLITE env)]\<rparr>
                      # NativeCall i this params # fin
        \<and> (fin = [End (length (trace s))] \<or> (\<exists>st. fin = [SetStatus (length (trace s)) st, End (length (trace s))]))"
  unfolding exec_as_genericWrap
  using genericWrap_native_trace[of env nm i this params "length (trace s)"
      "s\<lparr>trace := trace s @ [StartSpan (length (trace s)) (tracer instr) nm
                         \<lparr>kind = CLIENT,
                          attributes = [ATTR_DB_SYSTEM env \<mapsto> JStr (DB_SYSTEM_VALUE_SQLITE env)]\<rparr>]\<rparr>"]
  by simp

lemma prepare_native_trace:
  "\<exists>fin. trace (snd (call_fn env (Prepare instr (Native nm i)) this params s))
          = trace s @ StartSpan (length (trace s)) (tracer instr) nm
                         \<lparr>kind = CLIENT,
                          attributes = [ATTR_DB_SYSTEM env \<mapsto> JStr (DB_SYSTEM_VALUE_SQLITE env),
                                        ATTR_DB_QUERY_TEXT env \<mapsto> first_param params]\<rparr>
                      # NativeCall i this params # fin
        \<and> (fin = [End (length (trace s))] \<or> (\<exists>st. fin = [SetStatus (length (trace s)) st, End (length (trace s))]))"
  unfolding prepare_as_genericWrap
  using genericWrap_native_trace[of env nm i this params "length (trace s)"
      "s\<lparr>trace := trace s @ [StartSpan (length (trace s)) (tracer instr) nm
                         \<lparr>kind = CLIENT,
                          attributes = [ATTR_DB_SYSTEM env \<mapsto> JStr (DB_SYSTEM_VALUE_SQLITE env),
                                        ATTR_DB_QUERY_TEXT env \<mapsto> first_param params]\<rparr>]\<rparr>"]
  by simp

lemma statementExecution_native_trace:
  assumes "this_sourceSQL env this s = (Return sql, s0)"
  shows "\<exists>fin. trace (snd (call_fn env (StatementExecution instr (Native nm i)) this params s))
          = trace s @ StartSpan (length (trace s)) (tracer instr) nm
                         \<lparr>kind = CLIENT,
                          attributes = [ATTR_DB_SYSTEM env \<mapsto> JStr (DB_SYSTEM_VALUE_SQLITE env),
                                        ATTR_DB_QUERY_TEXT env \<mapsto> sql]\<rparr>
                      # NativeCall i this params # fin
        \<and> (fin = [End (length (trace s))] \<or> (\<exists>st. fin = [SetStatus (length (trace s)) st, End (length (trace s))]))"
proof -
  have tr: "trace s0 = trace s" using this_sourceSQL_frame[of env this s] assms by simp
  show ?thesis
    unfolding statementExecution_as_genericWrap[OF assms]
    using genericWrap_native_trace[of env nm i this params "length (trace s)"
      "s0\<lparr>trace := trace s @ [StartSpan (length (trace s)) (tracer instr) nm
                         \<lparr>kind = CLIENT,
                          attributes = [ATTR_DB_SYSTEM env \<mapsto> JStr (DB_SYSTEM_VALUE_SQLITE env),
                                        ATTR_DB_QUERY_TEXT env \<mapsto> sql]\<rparr>]\<rparr>"]
    by (simp add: tr)
qed

lemma statementExecution_throw_trace:
  assumes "this_sourceSQL env this s = (Throw e, s0)"
  shows "trace (snd (call_fn env (StatementExecution instr f) this params s)) = trace s"
  unfolding statementExecution_unread[OF assms]
  using this_sourceSQL_frame[of env this s] assms by simp


lemma enabled_member:
  assumes "initial me s0" and "reachable env instr me s0 s" and "enabled s" and "loaded s = Some me"
    and "k \<in> set (instrumented me s0)"
  shows "\<exists>i. modules s k = Some (Method (installed instr (snd k) (Native (snd k) i)))"
proof -
  have ns: "node_sqlite me s0" using assms(1) by (simp add: initial_def)
  have "consistent instr me s0 s" using assms(1,2) by (rule reachable_consistent)
  with assms(3,4) have m: "modules s = patched_modules instr (instrumented me s0) (modules s0)"
    by (simp add: consistent_def)
  from native_member[OF ns assms(5)] obtain i where "modules s0 k = Some (Method (Native (snd k) i))" ..
  with m assms(5) have "modules s k = Some (Method (installed instr (snd k) (Native (snd k) i)))"
    by (simp add: patched_modules_def)
  then show ?thesis ..
qed

lemma instrumented_protos:
  assumes "prototype_of s (modules s (me, ''DatabaseSync'')) = Inr dp"
    and "prototype_of s (modules s (me, ''StatementSync'')) = Inr sp"
  shows "instrumented me s = [(dp, ''exec''), (dp, ''prepare''), (sp, ''all''), (sp, ''get''), (sp, ''run'')]"
  using assms by (simp add: instrumented_def STMT_METHODS_def)

lemma invoke_method:
  assumes "modules s (p, n) = Some (Method f)"
  shows "invoke env p n this params s = call_fn env f this params s"
  using assms by (simp add: invoke_def)

text \<open>
  C4. In every reachable state in which the instrumentation is enabled on the loaded
  module (the two attribute keys being different keys): a call of \<^verbatim>\<open>exec\<close> starts one
  span whose only attribute is the database system, without query text; a call of
  \<^verbatim>\<open>prepare\<close> starts one span with the database system and the query text
  \<^verbatim>\<open>params[0]\<close>; a call of \<^verbatim>\<open>all\<close>, \<^verbatim>\<open>get\<close> or \<^verbatim>\<open>run\<close> starts a span only when
  its read of \<^verbatim>\<open>this.sourceSQL\<close> returns, and that span carries the database system
  and, as query text, the value read, which for a data property is the receiver's
  \<^verbatim>\<open>sourceSQL\<close> whatever the arguments are. When the read throws, no span is started.
\<close>

theorem span_attributes_by_category:
  assumes "initial moduleExports s0" and "reachable env instr moduleExports s0 s"
    and "enabled s" and "loaded s = Some moduleExports"
    and "prototype_of s0 (modules s0 (moduleExports, ''DatabaseSync'')) = Inr dp"
    and "prototype_of s0 (modules s0 (moduleExports, ''StatementSync'')) = Inr sp"
    and "ATTR_DB_QUERY_TEXT env \<noteq> ATTR_DB_SYSTEM env"
  shows "(\<exists>opts i fin.
            trace (snd (invoke env dp ''exec'' this params s))
              = trace s @ StartSpan (length (trace s)) (tracer instr) ''exec'' opts
                          # NativeCall i this params # fin
            \<and> (fin = [End (length (trace s))]
                 \<or> (\<exists>st. fin = [SetStatus (length (trace s)) st, End (length (trace s))]))
            \<and> dom (attributes opts) = {ATTR_DB_SYSTEM env}
            \<and> attributes opts (ATTR_DB_SYSTEM env) = Some (JStr (DB_SYSTEM_VALUE_SQLITE env))
            \<and> attributes opts (ATTR_DB_QUERY_TEXT env) = None)
       \<and> (\<exists>opts i fin.
            trace (snd (invoke env dp ''prepare'' this params s))
              = trace s @ StartSpan (length (trace s)) (tracer instr) ''prepare'' opts
                          # NativeCall i this params # fin
            \<and> (fin = [End (length (trace s))]
                 \<or> (\<exists>st. fin = [SetStatus (length (trace s)) st, End (length (trace s))]))
            \<and> dom (attributes opts) = {ATTR_DB_SYSTEM env, ATTR_DB_QUERY_TEXT env}
            \<and> attributes opts (ATTR_DB_SYSTEM env) = Some (JStr (DB_SYSTEM_VALUE_SQLITE env))
            \<and> attributes opts (ATTR_DB_QUERY_TEXT env) = Some (first_param params))
       \<and> (\<forall>methodName\<in>set STMT_METHODS. \<forall>sourceSQL s1.
            this_sourceSQL env this s = (Return sourceSQL, s1) \<longrightarrow>
            (\<exists>opts i fin.
               trace (snd (invoke env sp methodName this params s))
                 = trace s @ StartSpan (length (trace s)) (tracer instr) methodName opts
                             # NativeCall i this params # fin
               \<and> (fin = [End (length (trace s))]
                    \<or> (\<exists>st. fin = [SetStatus (length (trace s)) st, End (length (trace s))]))
               \<and> dom (attributes opts) = {ATTR_DB_SYSTEM env, ATTR_DB_QUERY_TEXT env}
               \<and> attributes opts (ATTR_DB_SYSTEM env) = Some (JStr (DB_SYSTEM_VALUE_SQLITE env))
               \<and> attributes opts (ATTR_DB_QUERY_TEXT env) = Some sourceSQL))
       \<and> (\<forall>methodName\<in>set STMT_METHODS. \<forall>e s1.
            this_sourceSQL env this s = (Throw e, s1) \<longrightarrow>
            trace (snd (invoke env sp methodName this params s)) = trace s)
       \<and> (\<forall>a v. this = JObj a \<and> a < length (objects s) \<and>
                 (objects s ! a) ''sourceSQL'' = Some (Field v) \<longrightarrow>
            this_sourceSQL env this s = (Return v, s))"
proof -
  note ks = instrumented_protos[OF assms(5,6)]
  note mem = enabled_member[OF assms(1-4)]
  have 1: "\<exists>opts i fin.
            trace (snd (invoke env dp ''exec'' this params s))
              = trace s @ StartSpan (length (trace s)) (tracer instr) ''exec'' opts
                          # NativeCall i this params # fin
            \<and> (fin = [End (length (trace s))]
                 \<or> (\<exists>st. fin = [SetStatus (length (trace s)) st, End (length (trace s))]))
            \<and> dom (attributes opts) = {ATTR_DB_SYSTEM env}
            \<and> attributes opts (ATTR_DB_SYSTEM env) = Some (JStr (DB_SYSTEM_VALUE_SQLITE env))
            \<and> attributes opts (ATTR_DB_QUERY_TEXT env) = None"
  proof -
    from mem[of "(dp, ''exec'')"] obtain i where
      m: "modules s (dp, ''exec'') = Some (Method (Exec instr (Native ''exec'' i)))"
      by (auto simp: ks installed_def)
    let ?opts = "\<lparr>kind = CLIENT,
                  attributes = [ATTR_DB_SYSTEM env \<mapsto> JStr (DB_SYSTEM_VALUE_SQLITE env)]\<rparr>"
    from exec_native_trace[of env instr "''exec''" i this params s, folded invoke_method[OF m]]
    obtain fin where f:
      "trace (snd (invoke env dp ''exec'' this params s))
          = trace s @ StartSpan (length (trace s)) (tracer instr) ''exec'' ?opts
                      # NativeCall i this params # fin"
      "fin = [End (length (trace s))]
         \<or> (\<exists>st. fin = [SetStatus (length (trace s)) st, End (length (trace s))])"
      by (elim exE conjE)
    have a: "dom (attributes ?opts) = {ATTR_DB_SYSTEM env}"
      "attributes ?opts (ATTR_DB_SYSTEM env) = Some (JStr (DB_SYSTEM_VALUE_SQLITE env))"
      "attributes ?opts (ATTR_DB_QUERY_TEXT env) = None"
      using assms(7) by simp_all
    show ?thesis
      by (rule exI[of _ ?opts], rule exI[of _ i], rule exI[of _ fin]) (intro conjI f a)
  qed
  have 2: "\<exists>opts i fin.
            trace (snd (invoke env dp ''prepare'' this params s))
              = trace s @ StartSpan (length (trace s)) (tracer instr) ''prepare'' opts
                          # NativeCall i this params # fin
            \<and> (fin = [End (length (trace s))]
                 \<or> (\<exists>st. fin = [SetStatus (length (trace s)) st, End (length (trace s))]))
            \<and> dom (attributes opts) = {ATTR_DB_SYSTEM env, ATTR_DB_QUERY_TEXT env}
            \<and> attributes opts (ATTR_DB_SYSTEM env) = Some (JStr (DB_SYSTEM_VALUE_SQLITE env))
            \<and> attributes opts (ATTR_DB_QUERY_TEXT env) = Some (first_param params)"
  proof -
    from mem[of "(dp, ''prepare'')"] obtain i where
      m: "modules s (dp, ''prepare'') = Some (Method (Prepare instr (Native ''prepare'' i)))"
      by (auto simp: ks installed_def)
    let ?opts = "\<lparr>kind = CLIENT,
                  attributes = [ATTR_DB_SYSTEM env \<mapsto> JStr (DB_SYSTEM_VALUE_SQLITE env),
                                ATTR_DB_QUERY_TEXT env \<mapsto> first_param params]\<rparr>"
    from prepare_native_trace[of env instr "''prepare''" i this params s, folded invoke_method[OF m]]
    obtain fin where f:
      "trace (snd (invoke env dp ''prepare'' this params s))
          = trace s @ StartSpan (length (trace s)) (tracer instr) ''prepare'' ?opts
                      # NativeCall i this params # fin"
      "fin = [End (length (trace s))]
         \<or> (\<exists>st. fin = [SetStatus (length (trace s)) st, End (length (trace s))])"
      by (elim exE conjE)
    have a: "dom (attributes ?opts) = {ATTR_DB_SYSTEM env, ATTR_DB_QUERY_TEXT env}"
      "attributes ?opts (ATTR_DB_SYSTEM env) = Some (JStr (DB_SYSTEM_VALUE_SQLITE env))"
      "attributes ?opts (ATTR_DB_QUERY_TEXT env) = Some (first_param params)"
      using assms(7) by auto
    show ?thesis
      by (rule exI[of _ ?opts], rule exI[of _ i], rule exI[of _ fin]) (intro conjI f a)
  qed
  have 3: "\<forall>methodName\<in>set STMT_METHODS. \<forall>sourceSQL s1.
            this_sourceSQL env this s = (Return sourceSQL, s1) \<longrightarrow>
            (\<exists>opts i fin.
               trace (snd (invoke env sp methodName this params s))
                 = trace s @ StartSpan (length (trace s)) (tracer instr) methodName opts
                             # NativeCall i this params # fin
               \<and> (fin = [End (length (trace s))]
                    \<or> (\<exists>st. fin = [SetStatus (length (trace s)) st, End (length (trace s))]))
               \<and> dom (attributes opts) = {ATTR_DB_SYSTEM env, ATTR_DB_QUERY_TEXT env}
               \<and> attributes opts (ATTR_DB_SYSTEM env) = Some (JStr (DB_SYSTEM_VALUE_SQLITE env))
               \<and> attributes opts (ATTR_DB_QUERY_TEXT env) = Some sourceSQL)"
  proof (intro ballI allI impI)
    fix methodName sourceSQL s1
    assume mn: "methodName \<in> set STMT_METHODS"
      and src: "this_sourceSQL env this s = (Return sourceSQL, s1)"
    from mn have k: "(sp, methodName) \<in> set (instrumented moduleExports s0)"
      by (auto simp: ks STMT_METHODS_def)
    from mn have "installed instr methodName = StatementExecution instr"
      by (auto simp: installed_def STMT_METHODS_def)
    with mem[OF k] obtain i where
      m: "modules s (sp, methodName) = Some (Method (StatementExecution instr (Native methodName i)))"
      by auto
    let ?opts = "\<lparr>kind = CLIENT,
                  attributes = [ATTR_DB_SYSTEM env \<mapsto> JStr (DB_SYSTEM_VALUE_SQLITE env),
                                ATTR_DB_QUERY_TEXT env \<mapsto> sourceSQL]\<rparr>"
    from statementExecution_native_trace[OF src, of instr methodName i params, folded invoke_method[OF m]]
    obtain fin where f:
      "trace (snd (invoke env sp methodName this params s))
          = trace s @ StartSpan (length (trace s)) (tracer instr) methodName ?opts
                      # NativeCall i this params # fin"
      "fin = [End (length (trace s))]
         \<or> (\<exists>st. fin = [SetStatus (length (trace s)) st, End (length (trace s))])"
      by (elim exE conjE)
    have a: "dom (attributes ?opts) = {ATTR_DB_SYSTEM env, ATTR_DB_QUERY_TEXT env}"
      "attributes ?opts (ATTR_DB_SYSTEM env) = Some (JStr (DB_SYSTEM_VALUE_SQLITE env))"
      "attributes ?opts (ATTR_DB_QUERY_TEXT env) = Some sourceSQL"
      using assms(7) by auto
    show "\<exists>opts i fin.
               trace (snd (invoke env sp methodName this params s))
                 = trace s @ StartSpan (length (trace s)) (tracer instr) methodName opts
                             # NativeCall i this params # fin
               \<and> (fin = [End (length (trace s))]
                    \<or> (\<exists>st. fin = [SetStatus (length (trace s)) st, End (length (trace s))]))
               \<and> dom (attributes opts) = {ATTR_DB_SYSTEM env, ATTR_DB_QUERY_TEXT env}
               \<and> attributes opts (ATTR_DB_SYSTEM env) = Some (JStr (DB_SYSTEM_VALUE_SQLITE env))
               \<and> attributes opts (ATTR_DB_QUERY_TEXT env) = Some sourceSQL"
      by (rule exI[of _ ?opts], rule exI[of _ i], rule exI[of _ fin]) (intro conjI f a)
  qed
  have 4: "\<forall>methodName\<in>set STMT_METHODS. \<forall>e s1.
            this_sourceSQL env this s = (Throw e, s1) \<longrightarrow>
            trace (snd (invoke env sp methodName this params s)) = trace s"
  proof (intro ballI allI impI)
    fix methodName e s1
    assume mn: "methodName \<in> set STMT_METHODS"
      and src: "this_sourceSQL env this s = (Throw e, s1)"
    from mn have k: "(sp, methodName) \<in> set (instrumented moduleExports s0)"
      by (auto simp: ks STMT_METHODS_def)
    from mn have "installed instr methodName = StatementExecution instr"
      by (auto simp: installed_def STMT_METHODS_def)
    with mem[OF k] obtain i where
      m: "modules s (sp, methodName) = Some (Method (StatementExecution instr (Native methodName i)))"
      by auto
    from statementExecution_throw_trace[OF src, of instr "Native methodName i" params,
        folded invoke_method[OF m]]
    show "trace (snd (invoke env sp methodName this params s)) = trace s" .
  qed
  have 5: "\<forall>a v. this = JObj a \<and> a < length (objects s) \<and>
                 (objects s ! a) ''sourceSQL'' = Some (Field v) \<longrightarrow>
            this_sourceSQL env this s = (Return v, s)"
    using field_sourceSQL by blast
  show ?thesis by (intro conjI 1 2 3 4 5)
qed


lemma prepared_closed: "invoke test_env 3 ''close'' (JObj 0) [] prepared = (Return JUndefined, closed)"
proof -
  have m: "modules prepared (3, ''close'') = Some (Method (Native ''close'' 5))"
    by (simp add: prepared_def patched_def fresh_instrumented patched_modules_def)
       (simp add: fresh_def sqlite_module_def)
  have o: "objects prepared = [Map.empty, [''sourceSQL'' \<mapsto> Field (JStr ''INSERT INTO test (id) VALUES (?)'')]]"
    by (simp add: prepared_def)
  show ?thesis
    by (simp add: invoke_def m native_apply_def o test_env_def sqlite_natives_def finalize_def closed_def)
qed

lemma reachable_closed: "reachable test_env the_instr 0 fresh closed"
  using reach_call[OF reachable_prepared prepared_closed] .


theorem span_attributes_by_category_witness:
  "initial 0 fresh \<and> reachable test_env the_instr 0 fresh prepared
   \<and> enabled prepared \<and> loaded prepared = Some 0
   \<and> prototype_of fresh (modules fresh (0, ''DatabaseSync'')) = Inr 3
   \<and> prototype_of fresh (modules fresh (0, ''StatementSync'')) = Inr 4
   \<and> ATTR_DB_QUERY_TEXT test_env \<noteq> ATTR_DB_SYSTEM test_env
   \<and> this_sourceSQL test_env (JObj 1) prepared = (Return (JStr ''INSERT INTO test (id) VALUES (?)''), prepared)
   \<and> (\<exists>opts i fin.
         trace (snd (invoke test_env 4 ''all'' (JObj 1) [JNum 1] prepared))
           = trace prepared @ StartSpan 4 (tracer the_instr) ''all'' opts # NativeCall i (JObj 1) [JNum 1] # fin
         \<and> attributes opts ''db.system'' = Some (JStr ''sqlite'')
         \<and> attributes opts ''db.query.text'' = Some (JStr ''INSERT INTO test (id) VALUES (?)''))
   \<and> (\<exists>opts i fin.
         trace (snd (invoke test_env 3 ''exec'' (JObj 1) [JNum 1] prepared))
           = trace prepared @ StartSpan 4 (tracer the_instr) ''exec'' opts # NativeCall i (JObj 1) [JNum 1] # fin
         \<and> attributes opts ''db.system'' = Some (JStr ''sqlite'')
         \<and> attributes opts ''db.query.text'' = None)
   \<and> reachable test_env the_instr 0 fresh closed \<and> enabled closed \<and> loaded closed = Some 0
   \<and> fst (this_sourceSQL test_env (JObj 1) closed) = Throw (JObj 2)
   \<and> trace (snd (invoke test_env 4 ''all'' (JObj 1) [JNum 1] closed)) = trace closed"
proof -
  have a: "enabled prepared" "loaded prepared = Some 0" "length (trace prepared) = 4"
    by (simp_all add: prepared_def patched_def)
  have a': "enabled closed" "loaded closed = Some 0"
    by (simp_all add: closed_def prepared_def patched_def)
  have b: "prototype_of fresh (modules fresh (0, ''DatabaseSync'')) = Inr 3"
    "prototype_of fresh (modules fresh (0, ''StatementSync'')) = Inr 4"
    by (simp_all add: prototype_of_def fresh_def sqlite_module_def)
  have c: "ATTR_DB_QUERY_TEXT test_env \<noteq> ATTR_DB_SYSTEM test_env"
    by (simp add: test_env_def)
  have d: "this_sourceSQL test_env (JObj 1) prepared = (Return (JStr ''INSERT INTO test (id) VALUES (?)''), prepared)"
    by (simp add: prepared_def get_property_def)
  obtain s1 where d': "this_sourceSQL test_env (JObj 1) closed = (Throw (JObj 2), s1)"
    by (simp add: closed_def get_property_def test_env_def sqlite_getters_def)
  have e: "ATTR_DB_QUERY_TEXT test_env = ''db.query.text''" "ATTR_DB_SYSTEM test_env = ''db.system''"
    "DB_SYSTEM_VALUE_SQLITE test_env = ''sqlite''" "''all'' \<in> set STMT_METHODS"
    by (simp_all add: test_env_def STMT_METHODS_def)
  note t = span_attributes_by_category[OF fresh_initial reachable_prepared a(1,2) b c,
      of "JObj 1" "[JNum 1]", unfolded a(3) e(1-3)]
  note t1 = t[THEN conjunct1]
  note t3 = t[THEN conjunct2, THEN conjunct2, THEN conjunct1, rule_format, OF e(4) d]
  note u = span_attributes_by_category[OF fresh_initial reachable_closed a' b c,
      of "JObj 1" "[JNum 1]"]
  note u4 = u[THEN conjunct2, THEN conjunct2, THEN conjunct2, THEN conjunct1, rule_format, OF e(4) d']
  from t1 have 1: "\<exists>opts i fin.
         trace (snd (invoke test_env 3 ''exec'' (JObj 1) [JNum 1] prepared))
           = trace prepared @ StartSpan 4 (tracer the_instr) ''exec'' opts # NativeCall i (JObj 1) [JNum 1] # fin
         \<and> attributes opts ''db.system'' = Some (JStr ''sqlite'')
         \<and> attributes opts ''db.query.text'' = None"
    by (elim exE conjE, intro exI conjI) assumption+
  from t3 have 2: "\<exists>opts i fin.
         trace (snd (invoke test_env 4 ''all'' (JObj 1) [JNum 1] prepared))
           = trace prepared @ StartSpan 4 (tracer the_instr) ''all'' opts # NativeCall i (JObj 1) [JNum 1] # fin
         \<and> attributes opts ''db.system'' = Some (JStr ''sqlite'')
         \<and> attributes opts ''db.query.text'' = Some (JStr ''INSERT INTO test (id) VALUES (?)'')"
    by (elim exE conjE, intro exI conjI) assumption+
  have 3: "fst (this_sourceSQL test_env (JObj 1) closed) = Throw (JObj 2)"
    by (simp only: d' fst_conv)
  show ?thesis
    by (intro conjI fresh_initial reachable_prepared a(1,2) b c d 1 2 reachable_closed a' 3 u4)
qed

lemma enabled_call_trace:
  assumes "initial me s0" and "reachable env instr me s0 s" and "enabled s" and "loaded s = Some me"
    and "k \<in> set (instrumented me s0)"
  shows "\<exists>new. trace (snd (invoke env (fst k) (snd k) this params s)) = trace s @ new
           \<and> list_all (span_is (tracer instr) (snd k) CLIENT) new
           \<and> length (filter is_startSpan new)
               = (if snd k \<in> set STMT_METHODS \<and> throws (fst (this_sourceSQL env this s)) then 0 else 1)"
proof -
  have ns: "node_sqlite me s0" using assms(1) by (simp add: initial_def)
  from enabled_member[OF assms] obtain i where
    m: "modules s k = Some (Method (installed instr (snd k) (Native (snd k) i)))" ..
  then have inv: "invoke env (fst k) (snd k) this params s
                    = call_fn env (installed instr (snd k) (Native (snd k) i)) this params s"
    by (simp add: invoke_def)
  from ns obtain dp sp where
    ks: "instrumented me s0 = [(dp, ''exec''), (dp, ''prepare''), (sp, ''all''), (sp, ''get''), (sp, ''run'')]"
    by (rule node_sqliteD)
  from assms(5) have cases: "snd k = ''exec'' \<or> snd k = ''prepare'' \<or> snd k \<in> set STMT_METHODS"
    unfolding ks by (auto simp: STMT_METHODS_def)
  show ?thesis
  proof (cases "snd k = ''exec''")
    case True
    from True have "installed instr (snd k) = Exec instr"
      by (auto simp: installed_def)
    then have e: "invoke env (fst k) (snd k) this params s
               = call_fn env (Exec instr (Native (snd k) i)) this params s"
      by (simp only: inv)
    from exec_native_trace[of env instr "snd k" i this params s, folded e] obtain fin where
      "trace (snd (invoke env (fst k) (snd k) this params s))
          = trace s @ StartSpan (length (trace s)) (tracer instr) (snd k)
                         \<lparr>kind = CLIENT,
                          attributes = [ATTR_DB_SYSTEM env \<mapsto> JStr (DB_SYSTEM_VALUE_SQLITE env)]\<rparr>
                      # NativeCall i this params # fin"
      "fin = [End (length (trace s))]
         \<or> (\<exists>st. fin = [SetStatus (length (trace s)) st, End (length (trace s))])"
      by (elim exE conjE)
    with True show ?thesis by (auto simp: STMT_METHODS_def)
  next
    case False
    note ne = this
    show ?thesis
    proof (cases "snd k = ''prepare''")
      case True
      from True have "installed instr (snd k) = Prepare instr"
        by (auto simp: installed_def)
      then have e: "invoke env (fst k) (snd k) this params s
                 = call_fn env (Prepare instr (Native (snd k) i)) this params s"
        by (simp only: inv)
      from prepare_native_trace[of env instr "snd k" i this params s, folded e] obtain fin where
        "trace (snd (invoke env (fst k) (snd k) this params s))
          = trace s @ StartSpan (length (trace s)) (tracer instr) (snd k)
                         \<lparr>kind = CLIENT,
                          attributes = [ATTR_DB_SYSTEM env \<mapsto> JStr (DB_SYSTEM_VALUE_SQLITE env),
                                        ATTR_DB_QUERY_TEXT env \<mapsto> first_param params]\<rparr>
                      # NativeCall i this params # fin"
        "fin = [End (length (trace s))]
           \<or> (\<exists>st. fin = [SetStatus (length (trace s)) st, End (length (trace s))])"
        by (elim exE conjE)
      with True show ?thesis by (auto simp: STMT_METHODS_def)
    next
      case False
      with ne cases have st: "snd k \<in> set STMT_METHODS" by simp
      from ne False have ins: "installed instr (snd k) = StatementExecution instr"
        by (auto simp: installed_def)
      have e: "invoke env (fst k) (snd k) this params s
                 = call_fn env (StatementExecution instr (Native (snd k) i)) this params s"
        by (simp only: inv ins)
      obtain r s1 where rs: "this_sourceSQL env this s = (r, s1)" by (cases "this_sourceSQL env this s")
      show ?thesis
      proof (cases r)
        case (Throw x)
        from statementExecution_throw_trace[OF rs[unfolded Throw], of instr "Native (snd k) i" params, folded e]
        have "trace (snd (invoke env (fst k) (snd k) this params s)) = trace s @ []"
          by simp
        with Throw rs st show ?thesis by (intro exI[of _ "[]"]) simp
      next
        case (Return sql)
        from statementExecution_native_trace[OF rs[unfolded Return], of instr "snd k" i params, folded e]
        obtain fin where
          "trace (snd (invoke env (fst k) (snd k) this params s))
            = trace s @ StartSpan (length (trace s)) (tracer instr) (snd k)
                         \<lparr>kind = CLIENT,
                          attributes = [ATTR_DB_SYSTEM env \<mapsto> JStr (DB_SYSTEM_VALUE_SQLITE env),
                                        ATTR_DB_QUERY_TEXT env \<mapsto> sql]\<rparr>
                       # NativeCall i this params # fin"
          "fin = [End (length (trace s))]
             \<or> (\<exists>st. fin = [SetStatus (length (trace s)) st, End (length (trace s))])"
          by (elim exE conjE)
        with Return rs show ?thesis by auto
      qed
    qed
  qed
qed

text \<open>
  C5. In every reachable state in which the instrumentation is enabled on the loaded
  module, the instrumented member is one of \<^verbatim>\<open>exec\<close>, \<^verbatim>\<open>prepare\<close>, \<^verbatim>\<open>all\<close>,
  \<^verbatim>\<open>get\<close>, \<^verbatim>\<open>run\<close>, and every span that a call of it starts has the kind CLIENT, the
  name of that member (the \<^verbatim>\<open>name\<close> of the original method) and the tracer of the
  package's name and version. The call starts exactly one span, except that a statement
  method whose read of \<^verbatim>\<open>this.sourceSQL\<close> throws starts none.
\<close>

theorem span_kind_name_scope:
  assumes "initial moduleExports s0"
    and "reachable env (SqliteInstrumentation env cfg) moduleExports s0 s"
    and "enabled s" and "loaded s = Some moduleExports"
    and "k \<in> set (instrumented moduleExports s0)"
  shows "snd k \<in> {''exec'', ''prepare'', ''all'', ''get'', ''run''}
         \<and> (\<exists>new. trace (snd (invoke env (fst k) (snd k) this params s)) = trace s @ new
               \<and> list_all (span_is \<lparr>scope_name = pkg_name (pkg env),
                                     scope_version = pkg_version (pkg env)\<rparr> (snd k) CLIENT) new
               \<and> length (filter is_startSpan new)
                   = (if snd k \<in> set STMT_METHODS \<and> throws (fst (this_sourceSQL env this s))
                      then 0 else 1))"
proof -
  have ns: "node_sqlite moduleExports s0" using assms(1) by (simp add: initial_def)
  from ns obtain dp sp where
    ks: "instrumented moduleExports s0
           = [(dp, ''exec''), (dp, ''prepare''), (sp, ''all''), (sp, ''get''), (sp, ''run'')]"
    by (rule node_sqliteD)
  from assms(5) have 1: "snd k \<in> {''exec'', ''prepare'', ''all'', ''get'', ''run''}"
    unfolding ks by auto
  have tr: "tracer (SqliteInstrumentation env cfg)
              = \<lparr>scope_name = pkg_name (pkg env), scope_version = pkg_version (pkg env)\<rparr>"
    by (simp add: tracer_def SqliteInstrumentation_def InstrumentationBase_def)
  from enabled_call_trace[OF assms, of this params] have 2:
    "\<exists>new. trace (snd (invoke env (fst k) (snd k) this params s)) = trace s @ new
               \<and> list_all (span_is \<lparr>scope_name = pkg_name (pkg env),
                                     scope_version = pkg_version (pkg env)\<rparr> (snd k) CLIENT) new
               \<and> length (filter is_startSpan new)
                   = (if snd k \<in> set STMT_METHODS \<and> throws (fst (this_sourceSQL env this s))
                      then 0 else 1)"
    unfolding tr .
  show ?thesis by (intro conjI 1 2)
qed

theorem span_kind_name_scope_witness:
  "initial 0 fresh \<and> reachable test_env (SqliteInstrumentation test_env JUndefined) 0 fresh prepared
   \<and> enabled prepared \<and> loaded prepared = Some 0
   \<and> (4, ''run'') \<in> set (instrumented 0 fresh)
   \<and> (\<exists>new. trace (snd (invoke test_env 4 ''run'' (JObj 1) [JNum 1] prepared)) = trace prepared @ new
         \<and> list_all (span_is \<lparr>scope_name = ''opentelemetry-instrumentation-sqlite'',
                               scope_version = ''1.0.0''\<rparr> ''run'' CLIENT) new
         \<and> length (filter is_startSpan new) = 1)
   \<and> reachable test_env (SqliteInstrumentation test_env JUndefined) 0 fresh closed
   \<and> enabled closed \<and> loaded closed = Some 0
   \<and> (\<exists>new. trace (snd (invoke test_env 4 ''run'' (JObj 1) [JNum 1] closed)) = trace closed @ new
         \<and> length (filter is_startSpan new) = 0)"
proof -
  have r: "reachable test_env (SqliteInstrumentation test_env JUndefined) 0 fresh prepared"
    using reachable_prepared by (simp add: the_instr_def)
  have r': "reachable test_env (SqliteInstrumentation test_env JUndefined) 0 fresh closed"
    using reachable_closed by (simp add: the_instr_def)
  have a: "enabled prepared" "loaded prepared = Some 0"
    by (simp_all add: prepared_def patched_def)
  have a': "enabled closed" "loaded closed = Some 0"
    by (simp_all add: closed_def prepared_def patched_def)
  have k: "(4, ''run'') \<in> set (instrumented 0 fresh)"
    by (simp add: fresh_instrumented)
  have e: "pkg_name (pkg test_env) = ''opentelemetry-instrumentation-sqlite''"
    "pkg_version (pkg test_env) = ''1.0.0''"
    by (simp_all add: test_env_def)
  have f: "(if ''run'' \<in> set STMT_METHODS \<and> throws (fst (this_sourceSQL test_env (JObj 1) prepared)) then 0 else 1) = (1::nat)"
    "(if ''run'' \<in> set STMT_METHODS \<and> throws (fst (this_sourceSQL test_env (JObj 1) closed)) then 0 else 1) = (0::nat)"
    "fst (4::nat, ''run'') = 4" "snd (4::nat, ''run'') = ''run''"
    by (simp_all add: prepared_def closed_def get_property_def STMT_METHODS_def test_env_def sqlite_getters_def)
  note t = span_kind_name_scope[OF fresh_initial r a k, of "JObj 1" "[JNum 1]", unfolded e f, THEN conjunct2]
  note u = span_kind_name_scope[OF fresh_initial r' a' k, of "JObj 1" "[JNum 1]", unfolded e f, THEN conjunct2]
  from t
  have 1: "\<exists>new. trace (snd (invoke test_env 4 ''run'' (JObj 1) [JNum 1] prepared)) = trace prepared @ new
         \<and> list_all (span_is \<lparr>scope_name = ''opentelemetry-instrumentation-sqlite'',
                               scope_version = ''1.0.0''\<rparr> ''run'' CLIENT) new
         \<and> length (filter is_startSpan new) = 1"
    by (elim exE conjE, intro exI conjI) assumption+
  from u
  have 2: "\<exists>new. trace (snd (invoke test_env 4 ''run'' (JObj 1) [JNum 1] closed)) = trace closed @ new
         \<and> length (filter is_startSpan new) = 0"
    by (elim exE conjE, intro exI conjI) assumption+
  show ?thesis
    by (intro conjI fresh_initial r a k 1 r' a' 2)
qed

end
